theory Spec2Isabelle
  imports Complex_Main "HOL-Library.Char_ord" "HOL-Library.List_Lexorder" "HOL-Library.Multiset"
    "HOL-Library.Log_Nat"
begin

section \<open>Data model (types.ts)\<close>

text \<open>
  The interfaces of the source become records. A field whose name is used by several
  interfaces (or by a HOL constant, such as \<open>id\<close>) carries the interface as a prefix:
  \<open>prod_id\<close>, \<open>log_id\<close>, \<open>sale_id\<close>, ... An optional field \<open>f?: T\<close> is a \<open>T option\<close>,
  with \<open>None\<close> for \<open>undefined\<close>.

  A \<open>number\<close> of the source is an IEEE 754 binary64 value. Quantities and stock levels are
  integers (\<open>int\<close>): their sums and differences are exact in binary64 (below \<open>2^53\<close>). A
  price or a money amount is the rational number (\<open>rat\<close>) that the finite binary64 value
  denotes; the arithmetic on them rounds, see \<open>to_double\<close> below.
\<close>

datatype LogType = RESTOCK | SALE | ADJUSTMENT | INITIAL

record StockLog =
  log_id :: string
  log_timestamp :: string
  log_type :: LogType
  amount :: int
  balance :: int
  reason :: "string option"

record Product =
  prod_id :: string
  prod_name :: string
  sku :: string
  category :: string
  buyPrice :: rat
  marginPercent :: rat
  sellPrice :: rat
  stock :: int
  minStock :: int
  description :: string
  lastRestocked :: string
  stockHistory :: "StockLog list"

record Customer =
  cust_id :: string
  cust_name :: string
  address :: string
  phone :: string
  email :: "string option"

record SaleItem =
  productId :: string
  item_name :: string
  quantity :: int
  price :: rat
  item_total :: rat
  returnedQuantity :: "int option"

datatype PaymentMethod = Cash | Card | Transfer

record Sale =
  sale_id :: string
  sale_timestamp :: string
  customerName :: "string option"
  customerAddress :: "string option"
  customerPhone :: "string option"
  items :: "SaleItem list"
  subtotal :: rat
  tax :: rat
  total :: rat
  paymentMethod :: PaymentMethod
  processedBy :: "string option"

datatype UserRole = ADMIN | SALESPERSON

record User =
  user_id :: string
  username :: string
  role :: UserRole
  fullName :: string

text \<open>
  \<open>Partial<Product>\<close>, the argument of \<open>bulkUpdateProducts\<close>: every field of a product,
  each present or absent.
\<close>

record ProductUpdates =
  upd_id :: "string option"
  upd_name :: "string option"
  upd_sku :: "string option"
  upd_category :: "string option"
  upd_buyPrice :: "rat option"
  upd_marginPercent :: "rat option"
  upd_sellPrice :: "rat option"
  upd_stock :: "int option"
  upd_minStock :: "int option"
  upd_description :: "string option"
  upd_lastRestocked :: "string option"
  upd_stockHistory :: "StockLog list option"

text \<open>A line of a return request: \<open>{ productId: string, quantity: number }\<close>.\<close>

record ReturnLine =
  ret_productId :: string
  ret_quantity :: int

section \<open>Binary64 arithmetic\<close>

text \<open>
  The result of \<open>a * b\<close> or \<open>a + b\<close> on two finite binary64 values is the exact result
  rounded to the nearest binary64 value, ties to the one with an even significand.
  \<open>round_even\<close> rounds a rational to the nearest integer, ties to even; \<open>expo x\<close> is the
  binary exponent of \<open>x \<noteq> 0\<close>, the \<open>e\<close> with \<open>2^e \<le> |x| < 2^(e+1)\<close>; \<open>to_double x\<close>
  rounds \<open>x\<close> to a multiple of \<open>2^(e - 52)\<close>, and of \<open>2^(-1074)\<close> in the subnormal
  range. \<open>Infinity\<close> and \<open>NaN\<close> are not represented: \<open>to_double x\<close> is the result of the
  source as long as that result is finite (its magnitude stays below \<open>2^1024\<close>).
\<close>

definition round_even :: "rat \<Rightarrow> int" where
  "round_even q =
     (let n = \<lfloor>q\<rfloor>; r = q - of_int n
      in if r < 1 / 2 then n else if 1 / 2 < r then n + 1 else if even n then n else n + 1)"

definition expo :: "rat \<Rightarrow> int" where
  "expo x =
     (let d = bitlen (fst (quotient_of \<bar>x\<bar>)) - bitlen (snd (quotient_of \<bar>x\<bar>))
      in if 2 powi d \<le> \<bar>x\<bar> then d else d - 1)"

definition to_double :: "rat \<Rightarrow> rat" where
  "to_double x =
     (if x = 0 then 0
      else let u = 2 powi (max (expo x) (- 1022) - 52)
           in of_int (round_even (x / u)) * u)"

text \<open>The two arithmetic operations of the point of sale.\<close>

definition js_mul :: "rat \<Rightarrow> rat \<Rightarrow> rat" where
  "js_mul a b = to_double (a * b)"

definition js_add :: "rat \<Rightarrow> rat \<Rightarrow> rat" where
  "js_add a b = to_double (a + b)"

text \<open>The literal \<open>0.05\<close>: the binary64 value nearest to 5/100.\<close>

definition literal_0_05 :: rat where
  "literal_0_05 = to_double (5 / 100)"

section \<open>Application state (App.tsx)\<close>

text \<open>
  The five \<open>useState\<close> cells of \<open>App\<close> that the operations read and write. A call
  \<open>setX(prev => f prev)\<close> replaces the cell \<open>X\<close> by \<open>f\<close> of its value; several such calls
  in one handler are applied in the order they are made.
\<close>

record AppState =
  currentUser :: "User option"
  products :: "Product list"
  sales :: "Sale list"
  customers :: "Customer list"
  categories :: "string list"

text \<open>
  What an operation reads from outside the state: the clock, once per operation
  (\<open>new Date().toISOString()\<close> and \<open>Date.now()\<close> printed in decimal), and
  \<open>Math.random().toString(36).substr(2, 5)\<close>.
\<close>

record Env =
  nowISO :: string
  nowMs :: string
  rnd5 :: string

definition isAdmin :: "AppState \<Rightarrow> bool" where
  "isAdmin st = (case currentUser st of None \<Rightarrow> False | Some u \<Rightarrow> role u = ADMIN)"

definition addCategory :: "string \<Rightarrow> AppState \<Rightarrow> AppState" where
  "addCategory name st =
     (if \<not> isAdmin st then st
      else if name \<notin> set (categories st)
        then st\<lparr>categories := sort (categories st @ [name])\<rparr>
        else st)"

definition renameCategory :: "string \<Rightarrow> string \<Rightarrow> AppState \<Rightarrow> AppState" where
  "renameCategory oldName newName st =
     (if \<not> isAdmin st then st
      else if newName \<in> set (categories st) then st
      else st\<lparr>categories := sort (map (\<lambda>c. if c = oldName then newName else c) (categories st)),
              products := map (\<lambda>p. if category p = oldName then p\<lparr>category := newName\<rparr> else p)
                            (products st)\<rparr>)"

definition deleteCategory :: "string \<Rightarrow> AppState \<Rightarrow> AppState" where
  "deleteCategory name st =
     (if \<not> isAdmin st then st
      else
        let cats1 = filter (\<lambda>c. c \<noteq> name) (categories st);
            prods = map (\<lambda>p. if category p = name then p\<lparr>category := ''General''\<rparr> else p)
                      (products st);
            cats2 = (if ''General'' \<notin> set (categories st)
                     then sort (''General'' # filter (\<lambda>c. c \<noteq> name) cats1)
                     else cats1)
        in st\<lparr>categories := cats2, products := prods\<rparr>)"

definition initialLog :: "Env \<Rightarrow> Product \<Rightarrow> StockLog" where
  "initialLog e p =
     \<lparr>log_id = ''LOG-'' @ nowMs e @ ''-'' @ rnd5 e, log_timestamp = nowISO e,
      log_type = INITIAL, amount = stock p, balance = stock p, reason = None\<rparr>"

definition addProduct :: "Env \<Rightarrow> Product \<Rightarrow> AppState \<Rightarrow> AppState" where
  "addProduct e p st =
     (if \<not> isAdmin st then st
      else
        let st1 = st\<lparr>products := products st @ [p\<lparr>stockHistory := [initialLog e p]\<rparr>]\<rparr>
        in if category p \<notin> set (categories st) then addCategory (category p) st1 else st1)"

text \<open>The body of the \<open>map\<close> of \<open>updateProduct\<close>, for the product whose id matches.\<close>

definition updateOne :: "Env \<Rightarrow> Product \<Rightarrow> Product \<Rightarrow> Product" where
  "updateOne e updated p =
     (let history = stockHistory p in
      if stock updated \<noteq> stock p then
        let log = \<lparr>log_id = ''LOG-'' @ nowMs e, log_timestamp = nowISO e,
                   log_type = ADJUSTMENT, amount = stock updated - stock p,
                   balance = stock updated, reason = Some ''Manual Update''\<rparr>
        in updated\<lparr>stockHistory := log # history\<rparr>
      else updated\<lparr>stockHistory := history\<rparr>)"

definition updateProduct :: "Env \<Rightarrow> Product \<Rightarrow> AppState \<Rightarrow> AppState" where
  "updateProduct e updated st =
     (if \<not> isAdmin st then st
      else
        let st1 = st\<lparr>products :=
                     map (\<lambda>p. if prod_id p = prod_id updated then updateOne e updated p else p)
                       (products st)\<rparr>
        in if category updated \<notin> set (categories st)
           then addCategory (category updated) st1 else st1)"

text \<open>The object spread \<open>{ ...p, ...updates }\<close>: a field present in \<open>updates\<close> wins.\<close>

definition spreadUpdates :: "Product \<Rightarrow> ProductUpdates \<Rightarrow> Product" where
  "spreadUpdates p u =
     \<lparr>prod_id = (case upd_id u of None \<Rightarrow> prod_id p | Some v \<Rightarrow> v),
      prod_name = (case upd_name u of None \<Rightarrow> prod_name p | Some v \<Rightarrow> v),
      sku = (case upd_sku u of None \<Rightarrow> sku p | Some v \<Rightarrow> v),
      category = (case upd_category u of None \<Rightarrow> category p | Some v \<Rightarrow> v),
      buyPrice = (case upd_buyPrice u of None \<Rightarrow> buyPrice p | Some v \<Rightarrow> v),
      marginPercent = (case upd_marginPercent u of None \<Rightarrow> marginPercent p | Some v \<Rightarrow> v),
      sellPrice = (case upd_sellPrice u of None \<Rightarrow> sellPrice p | Some v \<Rightarrow> v),
      stock = (case upd_stock u of None \<Rightarrow> stock p | Some v \<Rightarrow> v),
      minStock = (case upd_minStock u of None \<Rightarrow> minStock p | Some v \<Rightarrow> v),
      description = (case upd_description u of None \<Rightarrow> description p | Some v \<Rightarrow> v),
      lastRestocked = (case upd_lastRestocked u of None \<Rightarrow> lastRestocked p | Some v \<Rightarrow> v),
      stockHistory = (case upd_stockHistory u of None \<Rightarrow> stockHistory p | Some v \<Rightarrow> v)\<rparr>"

definition bulkUpdateProducts :: "string list \<Rightarrow> ProductUpdates \<Rightarrow> AppState \<Rightarrow> AppState" where
  "bulkUpdateProducts productIds updates st =
     (if \<not> isAdmin st then st
      else st\<lparr>products :=
                map (\<lambda>p. if prod_id p \<in> set productIds then spreadUpdates p updates else p)
                  (products st)\<rparr>)"

text \<open>The body of the \<open>map\<close> of \<open>adjustStock\<close>, for the product whose id matches.\<close>

definition adjustOne :: "Env \<Rightarrow> int \<Rightarrow> string \<Rightarrow> Product \<Rightarrow> Product" where
  "adjustOne e amt rsn p =
     (let newStock = max 0 (stock p + amt);
          log = \<lparr>log_id = ''LOG-'' @ nowMs e @ ''-'' @ prod_id p, log_timestamp = nowISO e,
                 log_type = ADJUSTMENT, amount = amt, balance = newStock, reason = Some rsn\<rparr>
      in p\<lparr>stock := newStock, stockHistory := log # stockHistory p\<rparr>)"

definition adjustStock :: "Env \<Rightarrow> string \<Rightarrow> int \<Rightarrow> string \<Rightarrow> AppState \<Rightarrow> AppState" where
  "adjustStock e pid amt rsn st =
     (if \<not> isAdmin st then st
      else st\<lparr>products :=
                map (\<lambda>p. if prod_id p = pid then adjustOne e amt rsn p else p) (products st)\<rparr>)"

definition deleteProduct :: "string \<Rightarrow> AppState \<Rightarrow> AppState" where
  "deleteProduct pid st =
     (if \<not> isAdmin st then st
      else st\<lparr>products := filter (\<lambda>p. prod_id p \<noteq> pid) (products st)\<rparr>)"

text \<open>
  The body of the \<open>map\<close> of \<open>completeSale\<close>: \<open>sale.items.find\<close> gives the first line
  of the sale that names the product, if there is one.
\<close>

definition sellOne :: "Env \<Rightarrow> Sale \<Rightarrow> Product \<Rightarrow> Product" where
  "sellOne e sale p =
     (case find (\<lambda>item. productId item = prod_id p) (items sale) of
        Some soldItem \<Rightarrow>
          let newStock = stock p - quantity soldItem;
              log = \<lparr>log_id = ''LOG-'' @ nowMs e @ ''-'' @ prod_id p, log_timestamp = nowISO e,
                     log_type = SALE, amount = - quantity soldItem, balance = newStock,
                     reason = None\<rparr>
          in p\<lparr>stock := newStock, stockHistory := log # stockHistory p\<rparr>
      | None \<Rightarrow> p)"

definition completeSale :: "Env \<Rightarrow> Sale \<Rightarrow> AppState \<Rightarrow> AppState" where
  "completeSale e sale st =
     (let processedSale = sale\<lparr>processedBy := map_option fullName (currentUser st)\<rparr>
      in st\<lparr>products := map (sellOne e sale) (products st),
              sales := processedSale # sales st\<rparr>)"

text \<open>
  \<open>processReturn\<close>, first half: the \<open>map\<close> over the items of the sale whose id matches.
  \<open>item.returnedQuantity || 0\<close> is 0 for an absent field.
\<close>

definition returnItem :: "ReturnLine list \<Rightarrow> SaleItem \<Rightarrow> SaleItem" where
  "returnItem returns item =
     (case find (\<lambda>r. ret_productId r = productId item) returns of
        Some returnInfo \<Rightarrow>
          item\<lparr>returnedQuantity :=
                 Some ((case returnedQuantity item of None \<Rightarrow> 0 | Some q \<Rightarrow> q)
                       + ret_quantity returnInfo)\<rparr>
      | None \<Rightarrow> item)"

definition returnSale :: "string \<Rightarrow> ReturnLine list \<Rightarrow> Sale \<Rightarrow> Sale" where
  "returnSale saleId returns s =
     (if sale_id s = saleId then s\<lparr>items := map (returnItem returns) (items s)\<rparr> else s)"

text \<open>
  Second half: \<open>returns.forEach\<close>, one \<open>setProducts\<close> per line. \<open>saleId.slice(-6)\<close> is
  the last six characters of the id (all of it when it is shorter).
\<close>

definition slice_last6 :: "string \<Rightarrow> string" where
  "slice_last6 s = drop (length s - 6) s"

definition returnOne :: "Env \<Rightarrow> string \<Rightarrow> ReturnLine \<Rightarrow> Product \<Rightarrow> Product" where
  "returnOne e saleId ret p =
     (if prod_id p = ret_productId ret then
        let newStock = stock p + ret_quantity ret;
            log = \<lparr>log_id = ''LOG-RET-'' @ nowMs e @ ''-'' @ prod_id p, log_timestamp = nowISO e,
                   log_type = RESTOCK, amount = ret_quantity ret, balance = newStock,
                   reason = Some (''Return from Sale #'' @ slice_last6 saleId)\<rparr>
        in p\<lparr>stock := newStock, stockHistory := log # stockHistory p\<rparr>
      else p)"

fun returnProducts :: "Env \<Rightarrow> string \<Rightarrow> ReturnLine list \<Rightarrow> Product list \<Rightarrow> Product list" where
  "returnProducts e saleId [] ps = ps"
| "returnProducts e saleId (ret # rets) ps =
     returnProducts e saleId rets (map (returnOne e saleId ret) ps)"

definition processReturn :: "Env \<Rightarrow> string \<Rightarrow> ReturnLine list \<Rightarrow> AppState \<Rightarrow> AppState" where
  "processReturn e saleId returns st =
     (if \<not> isAdmin st then st
      else st\<lparr>sales := map (returnSale saleId returns) (sales st),
              products := returnProducts e saleId returns (products st)\<rparr>)"

text \<open>The body of the \<open>map\<close> of \<open>restockProduct\<close>, for the product whose id matches.\<close>

definition restockOne :: "Env \<Rightarrow> int \<Rightarrow> Product \<Rightarrow> Product" where
  "restockOne e amt p =
     (let newStock = stock p + amt;
          log = \<lparr>log_id = ''LOG-'' @ nowMs e @ ''-'' @ rnd5 e, log_timestamp = nowISO e,
                 log_type = RESTOCK, amount = amt, balance = newStock, reason = None\<rparr>
      in p\<lparr>stock := newStock, lastRestocked := nowISO e, stockHistory := log # stockHistory p\<rparr>)"

definition restockProduct :: "Env \<Rightarrow> string \<Rightarrow> int \<Rightarrow> AppState \<Rightarrow> AppState" where
  "restockProduct e pid amt st =
     (if \<not> isAdmin st then st
      else st\<lparr>products :=
                map (\<lambda>p. if prod_id p = pid then restockOne e amt p else p) (products st)\<rparr>)"

definition saveCustomer :: "Customer \<Rightarrow> AppState \<Rightarrow> AppState" where
  "saveCustomer customer st =
     st\<lparr>customers :=
          (case find (\<lambda>c. cust_id c = cust_id customer) (customers st) of
             Some ex \<Rightarrow> map (\<lambda>c. if cust_id c = cust_id customer then customer else c) (customers st)
           | None \<Rightarrow> customers st @ [customer])\<rparr>"

section \<open>Point of sale (components/POS.tsx)\<close>

text \<open>
  The cart is a list of sale items. \<open>addToCart\<close> is offered for the products with
  \<open>stock > 0\<close> only (the component lists \<open>filteredProducts\<close>, which ends in
  \<open>.filter(p => p.stock > 0)\<close>).
\<close>

definition addToCart :: "Product \<Rightarrow> SaleItem list \<Rightarrow> SaleItem list" where
  "addToCart product cart =
     (case find (\<lambda>item. productId item = prod_id product) cart of
        Some existing \<Rightarrow>
          if quantity existing \<ge> stock product then cart
          else map (\<lambda>item. if productId item = prod_id product
                           then item\<lparr>quantity := quantity item + 1,
                                    item_total := js_mul (of_int (quantity item + 1)) (price item)\<rparr>
                           else item) cart
      | None \<Rightarrow>
          cart @ [\<lparr>productId = prod_id product, item_name = prod_name product, quantity = 1,
                   price = sellPrice product, item_total = sellPrice product,
                   returnedQuantity = None\<rparr>])"

text \<open>
  \<open>updateQuantity\<close>: the \<open>map\<close> yields \<open>null\<close> for a line whose quantity reaches 0, and
  \<open>.filter(Boolean)\<close> drops it. \<open>prod?.stock || 0\<close> is 0 when no product has the id.
\<close>

definition updateQuantity :: "Product list \<Rightarrow> string \<Rightarrow> int \<Rightarrow> SaleItem list \<Rightarrow> SaleItem list" where
  "updateQuantity prods pid delta prevCart =
     List.map_filter (\<lambda>item.
        if productId item = pid then
          let newQty = max 0 (quantity item + delta);
              prd = find (\<lambda>p. prod_id p = pid) prods
          in if newQty > (case prd of None \<Rightarrow> 0 | Some p \<Rightarrow> stock p) then Some item
             else if newQty = 0 then None
             else Some (item\<lparr>quantity := newQty,
                             item_total := js_mul (of_int newQty) (price item)\<rparr>)
        else Some item) prevCart"

text \<open>
  A candidate line read from a scanned voucher by the external service, after matching
  against the catalogue.
\<close>

record ScannedOrderItem =
  scan_name :: string
  scan_quantity :: int
  scan_price :: rat
  matchedProduct :: "Product option"
  selected :: bool

fun updateFirst :: "('a \<Rightarrow> bool) \<Rightarrow> ('a \<Rightarrow> 'a) \<Rightarrow> 'a list \<Rightarrow> 'a list" where
  "updateFirst P f [] = []"
| "updateFirst P f (x # xs) = (if P x then f x # xs else x # updateFirst P f xs)"

text \<open>
  One round of the \<open>forEach\<close> of \<open>addScannedToCart\<close>: \<open>existing\<close> is the first line of
  \<open>newCart\<close> with the product's id, and it is changed in place.
\<close>

definition addScannedOne :: "SaleItem list \<Rightarrow> ScannedOrderItem \<Rightarrow> SaleItem list" where
  "addScannedOne newCart item =
     (case matchedProduct item of
        None \<Rightarrow> newCart
      | Some prd \<Rightarrow>
          let qtyToAdd = min (scan_quantity item) (stock prd) in
          (case find (\<lambda>c. productId c = prod_id prd) newCart of
             Some existing \<Rightarrow>
               updateFirst (\<lambda>c. productId c = prod_id prd)
                 (\<lambda>ex. let q = min (quantity ex + qtyToAdd) (stock prd)
                       in ex\<lparr>quantity := q, item_total := js_mul (of_int q) (price ex)\<rparr>)
                 newCart
           | None \<Rightarrow>
               newCart @ [\<lparr>productId = prod_id prd, item_name = prod_name prd,
                            quantity = qtyToAdd, price = sellPrice prd,
                            item_total = js_mul (of_int qtyToAdd) (sellPrice prd),
                            returnedQuantity = None\<rparr>]))"

definition addScannedToCart :: "ScannedOrderItem list \<Rightarrow> SaleItem list \<Rightarrow> SaleItem list" where
  "addScannedToCart scannedItems cart =
     foldl addScannedOne cart
       (filter (\<lambda>i. selected i \<and> matchedProduct i \<noteq> None) scannedItems)"

text \<open>
  The totals of the component: \<open>cart.reduce((acc, item) => acc + item.total, 0)\<close>,
  \<open>subtotal * 0.05\<close> and \<open>subtotal + tax\<close>, each operation in binary64.
\<close>

definition cartSubtotal :: "SaleItem list \<Rightarrow> rat" where
  "cartSubtotal cart = foldl (\<lambda>acc item. js_add acc (item_total item)) 0 cart"

definition cartTax :: "SaleItem list \<Rightarrow> rat" where
  "cartTax cart = js_mul (cartSubtotal cart) literal_0_05"

definition cartTotal :: "SaleItem list \<Rightarrow> rat" where
  "cartTotal cart = js_add (cartSubtotal cart) (cartTax cart)"

text \<open>The state of the component that \<open>handleFinish\<close> reads and writes.\<close>

record PosState =
  cart :: "SaleItem list"
  pos_customerName :: string
  pos_customerAddress :: string
  pos_customerPhone :: string
  pos_paymentMethod :: PaymentMethod
  completedSale :: "Sale option"

definition mkSale :: "Env \<Rightarrow> PosState \<Rightarrow> Sale" where
  "mkSale e pos =
     \<lparr>sale_id = ''SALE-'' @ nowMs e, sale_timestamp = nowISO e,
      customerName = Some (if pos_customerName pos = [] then ''Walk-in Customer''
                           else pos_customerName pos),
      customerAddress = Some (pos_customerAddress pos),
      customerPhone = Some (pos_customerPhone pos),
      items = cart pos,
      subtotal = cartSubtotal (cart pos), tax = cartTax (cart pos), total = cartTotal (cart pos),
      paymentMethod = pos_paymentMethod pos, processedBy = None\<rparr>"

text \<open>
  \<open>handleFinish\<close> is the only caller of \<open>completeSale\<close> (\<open>onComplete\<close>): it returns at
  once on an empty cart, else builds the sale, hands it over and clears the cart.
\<close>

definition handleFinish :: "Env \<Rightarrow> PosState \<Rightarrow> AppState \<Rightarrow> PosState \<times> AppState" where
  "handleFinish e pos st =
     (if cart pos = [] then (pos, st)
      else
        let sale = mkSale e pos
        in (pos\<lparr>cart := [], pos_customerName := [], pos_customerAddress := [],
                 pos_customerPhone := [], completedSale := Some sale\<rparr>,
            completeSale e sale st))"

section \<open>Product query (the Inventory component, components/Dashboard.tsx)\<close>

datatype SortDirection = Asc | Desc

text \<open>
  The sort keys: the fields of a product that hold a string or a number. (\<open>keyof Product\<close>
  has \<open>stockHistory\<close> too; no column header sorts by it.)
\<close>

datatype SortKey =
  K_id | K_name | K_sku | K_category | K_buyPrice | K_marginPercent | K_sellPrice
  | K_stock | K_minStock | K_description | K_lastRestocked

record SortConfig =
  key :: SortKey
  direction :: "SortDirection option"

datatype FieldValue = Str string | Num rat

fun field :: "SortKey \<Rightarrow> Product \<Rightarrow> FieldValue" where
  "field K_id p = Str (prod_id p)"
| "field K_name p = Str (prod_name p)"
| "field K_sku p = Str (sku p)"
| "field K_category p = Str (category p)"
| "field K_buyPrice p = Num (buyPrice p)"
| "field K_marginPercent p = Num (marginPercent p)"
| "field K_sellPrice p = Num (sellPrice p)"
| "field K_stock p = Num (of_int (stock p))"
| "field K_minStock p = Num (of_int (minStock p))"
| "field K_description p = Str (description p)"
| "field K_lastRestocked p = Str (lastRestocked p)"

text \<open>
  \<open>String.prototype.toLowerCase\<close> belongs to the runtime, not to the repository: the
  functions of the query take it as their first argument \<open>toLowerCase\<close>.

  \<open>valA < valB\<close> after the lower-casing of two strings. Both values are read from the same
  field, so they are two strings or two numbers; strings compare character by character.
\<close>

fun js_less :: "(string \<Rightarrow> string) \<Rightarrow> FieldValue \<Rightarrow> FieldValue \<Rightarrow> bool" where
  "js_less toLowerCase (Str a) (Str b) = (toLowerCase a < toLowerCase b)"
| "js_less toLowerCase (Num a) (Num b) = (a < b)"
| "js_less toLowerCase _ _ = False"

text \<open>The comparator handed to \<open>sort\<close>: the \<open>for\<close> loop over \<open>sortConfigs\<close>.\<close>

fun comparator :: "(string \<Rightarrow> string) \<Rightarrow> SortConfig list \<Rightarrow> Product \<Rightarrow> Product \<Rightarrow> int" where
  "comparator toLowerCase [] a b = 0"
| "comparator toLowerCase (config # rest) a b =
     (case direction config of
        None \<Rightarrow> comparator toLowerCase rest a b
      | Some d \<Rightarrow>
          if js_less toLowerCase (field (key config) a) (field (key config) b)
            then (if d = Asc then - 1 else 1)
          else if js_less toLowerCase (field (key config) b) (field (key config) a)
            then (if d = Asc then 1 else - 1)
          else comparator toLowerCase rest a b)"

text \<open>
  \<open>Array.prototype.sort\<close> with a comparator. ECMAScript requires the sort to be stable;
  for a consistent comparator the stable sorted arrangement of an array is unique, and
  insertion from the right computes it.
\<close>

fun insertBy :: "('a \<Rightarrow> 'a \<Rightarrow> int) \<Rightarrow> 'a \<Rightarrow> 'a list \<Rightarrow> 'a list" where
  "insertBy cmp x [] = [x]"
| "insertBy cmp x (y # ys) = (if cmp x y \<le> 0 then x # y # ys else y # insertBy cmp x ys)"

fun array_sort :: "('a \<Rightarrow> 'a \<Rightarrow> int) \<Rightarrow> 'a list \<Rightarrow> 'a list" where
  "array_sort cmp [] = []"
| "array_sort cmp (x # xs) = insertBy cmp x (array_sort cmp xs)"

text \<open>\<open>String.prototype.includes\<close>: the argument occurs as a contiguous piece.\<close>

fun startsWith :: "string \<Rightarrow> string \<Rightarrow> bool" where
  "startsWith s [] = True"
| "startsWith [] (c # t) = False"
| "startsWith (d # s) (c # t) = (d = c \<and> startsWith s t)"

fun str_includes :: "string \<Rightarrow> string \<Rightarrow> bool" where
  "str_includes [] t = (t = [])"
| "str_includes (d # s) t = (startsWith (d # s) t \<or> str_includes s t)"

definition matchesFilter ::
  "(string \<Rightarrow> string) \<Rightarrow> string \<Rightarrow> string \<Rightarrow> Product \<Rightarrow> bool" where
  "matchesFilter toLowerCase searchTerm selectedCategory p =
     (let matchesSearch =
            (str_includes (toLowerCase (prod_name p)) (toLowerCase searchTerm)
             \<or> str_includes (toLowerCase (sku p)) (toLowerCase searchTerm)
             \<or> (description p \<noteq> []
                 \<and> str_includes (toLowerCase (description p)) (toLowerCase searchTerm)));
          matchesCategory = (selectedCategory = ''All'' \<or> category p = selectedCategory)
      in matchesSearch \<and> matchesCategory)"

definition filteredProducts ::
  "(string \<Rightarrow> string) \<Rightarrow> Product list \<Rightarrow> string \<Rightarrow> string \<Rightarrow> SortConfig list
   \<Rightarrow> Product list" where
  "filteredProducts toLowerCase prods searchTerm selectedCategory sortConfigs =
     (let result = filter (matchesFilter toLowerCase searchTerm selectedCategory) prods
      in if length sortConfigs > 0
         then array_sort (comparator toLowerCase sortConfigs) result
         else result)"

text \<open>\<open>findIndex\<close>, with \<open>None\<close> for -1.\<close>

fun findIndex :: "('a \<Rightarrow> bool) \<Rightarrow> 'a list \<Rightarrow> nat option" where
  "findIndex P [] = None"
| "findIndex P (x # xs) =
     (if P x then Some 0 else map_option Suc (findIndex P xs))"

text \<open>\<open>newConfigs.splice(i, 1)\<close>: the list without its element at index \<open>i\<close>.\<close>

definition splice1 :: "nat \<Rightarrow> 'a list \<Rightarrow> 'a list" where
  "splice1 i xs = take i xs @ drop (Suc i) xs"

definition handleSort :: "SortKey \<Rightarrow> bool \<Rightarrow> SortConfig list \<Rightarrow> SortConfig list" where
  "handleSort k isShift prev =
     (let existingIdx = findIndex (\<lambda>c. key c = k) prev;
          nextDirection =
            (case existingIdx of
               None \<Rightarrow> Some Asc
             | Some i \<Rightarrow>
                 if direction (prev ! i) = Some Asc then Some Desc
                 else if direction (prev ! i) = Some Desc then None
                 else Some Asc)
      in if \<not> isShift then
           (case nextDirection of
              Some d \<Rightarrow> [\<lparr>key = k, direction = Some d\<rparr>]
            | None \<Rightarrow> [])
         else
           (case existingIdx of
              Some i \<Rightarrow>
                (case nextDirection of
                   Some d \<Rightarrow> prev[i := \<lparr>key = k, direction = Some d\<rparr>]
                 | None \<Rightarrow> splice1 i prev)
            | None \<Rightarrow>
                (case nextDirection of
                   Some d \<Rightarrow> prev @ [\<lparr>key = k, direction = Some d\<rparr>]
                 | None \<Rightarrow> prev)))"

section \<open>Predicates of the properties\<close>

text \<open>The lines of a return request that name a product.\<close>

definition linesFor :: "Product \<Rightarrow> ReturnLine list \<Rightarrow> ReturnLine list" where
  "linesFor p returns = filter (\<lambda>r. ret_productId r = prod_id p) returns"


text \<open>A request line that names the product of some item of a sale with the given id.\<close>

definition names_item :: "AppState \<Rightarrow> string \<Rightarrow> ReturnLine \<Rightarrow> bool" where
  "names_item st saleId r =
     list_ex (\<lambda>s. sale_id s = saleId \<and> list_ex (\<lambda>it. productId it = ret_productId r) (items s))
       (sales st)"

text \<open>
  A ledger is kept newest first. \<open>chain_ok\<close>: the oldest entry is the \<open>INITIAL\<close> one, whose
  amount is its balance, and every later entry's balance is the balance before it plus its
  amount. \<open>ledger_ok\<close>: moreover the newest balance is the product's stock. \<open>replay\<close> adds
  up the amounts from the oldest entry to the newest.
\<close>

fun chain_ok :: "StockLog list \<Rightarrow> bool" where
  "chain_ok [] = False"
| "chain_ok [l] = (log_type l = INITIAL \<and> amount l = balance l)"
| "chain_ok (l # l' # ls) = (balance l = balance l' + amount l \<and> chain_ok (l' # ls))"

definition ledger_ok :: "Product \<Rightarrow> bool" where
  "ledger_ok p = (chain_ok (stockHistory p) \<and> balance (hd (stockHistory p)) = stock p)"

definition replay :: "StockLog list \<Rightarrow> int" where
  "replay hist = foldr (\<lambda>l acc. acc + amount l) hist 0"

text \<open>A rational that is a binary64 value, as every number of the source is.\<close>

definition is_double :: "rat \<Rightarrow> bool" where
  "is_double x = (to_double x = x)"

text \<open>A cart line whose total is the binary64 product of its quantity and its unit price.\<close>

definition line_ok :: "SaleItem \<Rightarrow> bool" where
  "line_ok item = (item_total item = js_mul (of_int (quantity item)) (price item))"

text \<open>
  A cart within stock: no two lines name the same product, and every line names a product
  of the catalogue whose stock covers the quantity of the line.
\<close>

definition cart_fits :: "Product list \<Rightarrow> SaleItem list \<Rightarrow> bool" where
  "cart_fits prods xs =
     (distinct (map productId xs) \<and>
      list_all (\<lambda>item. list_ex (\<lambda>p. prod_id p = productId item \<and> quantity item \<le> stock p) prods)
        xs)"

text \<open>
  The order that the specification asks of the query, in its words: compare by key 1; if
  equal, key 2; and so on, over the active keys (those with a direction); string
  comparisons are case-insensitive, numeric comparisons are by value. \<open>spec_less\<close>: the
  value of a key is smaller for \<open>a\<close> than for \<open>b\<close>, written out key by key, with \<open>lc\<close>
  the lower-casing. \<open>spec_differ\<close>: two products differ in a key. \<open>spec_deciding\<close>: the
  first active key in which two products differ, if there is one. \<open>spec_before\<close>: that
  key puts \<open>a\<close> before \<open>b\<close>, the smaller value first when it is ascending and the larger
  first when it is descending. \<open>spec_tied\<close>: no active key tells the two apart.
\<close>

fun spec_less :: "(string \<Rightarrow> string) \<Rightarrow> SortKey \<Rightarrow> Product \<Rightarrow> Product \<Rightarrow> bool" where
  "spec_less lc K_id a b = (lc (prod_id a) < lc (prod_id b))"
| "spec_less lc K_name a b = (lc (prod_name a) < lc (prod_name b))"
| "spec_less lc K_sku a b = (lc (sku a) < lc (sku b))"
| "spec_less lc K_category a b = (lc (category a) < lc (category b))"
| "spec_less lc K_buyPrice a b = (buyPrice a < buyPrice b)"
| "spec_less lc K_marginPercent a b = (marginPercent a < marginPercent b)"
| "spec_less lc K_sellPrice a b = (sellPrice a < sellPrice b)"
| "spec_less lc K_stock a b = (stock a < stock b)"
| "spec_less lc K_minStock a b = (minStock a < minStock b)"
| "spec_less lc K_description a b = (lc (description a) < lc (description b))"
| "spec_less lc K_lastRestocked a b = (lc (lastRestocked a) < lc (lastRestocked b))"

definition spec_differ :: "(string \<Rightarrow> string) \<Rightarrow> SortKey \<Rightarrow> Product \<Rightarrow> Product \<Rightarrow> bool" where
  "spec_differ lc k a b = (spec_less lc k a b \<or> spec_less lc k b a)"

definition spec_deciding ::
  "(string \<Rightarrow> string) \<Rightarrow> SortConfig list \<Rightarrow> Product \<Rightarrow> Product \<Rightarrow> SortConfig option" where
  "spec_deciding lc cfgs a b =
     find (\<lambda>c. direction c \<noteq> None \<and> spec_differ lc (key c) a b) cfgs"

definition spec_before ::
  "(string \<Rightarrow> string) \<Rightarrow> SortConfig list \<Rightarrow> Product \<Rightarrow> Product \<Rightarrow> bool" where
  "spec_before lc cfgs a b =
     (case spec_deciding lc cfgs a b of
        None \<Rightarrow> False
      | Some c \<Rightarrow>
          if direction c = Some Asc then spec_less lc (key c) a b
          else spec_less lc (key c) b a)"

definition spec_tied ::
  "(string \<Rightarrow> string) \<Rightarrow> SortConfig list \<Rightarrow> Product \<Rightarrow> Product \<Rightarrow> bool" where
  "spec_tied lc cfgs a b = (spec_deciding lc cfgs a b = None)"

text \<open>No two products of the list agree in the key: nothing ties.\<close>

definition no_ties :: "(string \<Rightarrow> string) \<Rightarrow> SortKey \<Rightarrow> Product list \<Rightarrow> bool" where
  "no_ties lc k xs = sorted_wrt (spec_differ lc k) xs"

section \<open>A concrete shop\<close>

text \<open>
  The scenario of the specification: product \<open>P\<close> with stock 10, minimum stock 2 and sell
  price 10, whose ledger holds its \<open>INITIAL\<close> entry; a second product \<open>Q\<close> with stock 4;
  an administrator and a salesperson.
\<close>

definition exEnv :: Env where
  "exEnv = \<lparr>nowISO = ''2024-05-01T10:00:00.000Z'', nowMs = ''1714557600000'', rnd5 = ''k3x9q''\<rparr>"

definition exAdmin :: User where
  "exAdmin = \<lparr>user_id = ''U1'', username = ''admin'', role = ADMIN, fullName = ''Store Admin''\<rparr>"

definition exSeller :: User where
  "exSeller =
     \<lparr>user_id = ''U2'', username = ''sales'', role = SALESPERSON, fullName = ''Sales Person''\<rparr>"

definition exProduct :: Product where
  "exProduct =
     \<lparr>prod_id = ''P'', prod_name = ''Widget'', sku = ''W-1'', category = ''General'',
      buyPrice = 8, marginPercent = 25, sellPrice = 10, stock = 10, minStock = 2,
      description = [], lastRestocked = ''2024-01-01T00:00:00.000Z'',
      stockHistory = [\<lparr>log_id = ''LOG-0'', log_timestamp = ''2024-01-01T00:00:00.000Z'',
                       log_type = INITIAL, amount = 10, balance = 10, reason = None\<rparr>]\<rparr>"

definition exGadget :: Product where
  "exGadget =
     \<lparr>prod_id = ''Q'', prod_name = ''Gadget'', sku = ''G-1'', category = ''General'',
      buyPrice = 2, marginPercent = 50, sellPrice = 3, stock = 4, minStock = 1,
      description = [], lastRestocked = ''2024-01-01T00:00:00.000Z'',
      stockHistory = [\<lparr>log_id = ''LOG-1'', log_timestamp = ''2024-01-01T00:00:00.000Z'',
                       log_type = INITIAL, amount = 4, balance = 4, reason = None\<rparr>]\<rparr>"

definition exState :: "User option \<Rightarrow> AppState" where
  "exState u = \<lparr>currentUser = u, products = [exProduct, exGadget], sales = [], customers = [],
               categories = [''General'']\<rparr>"

text \<open>A sale of three units of \<open>P\<close> at 10, as the point of sale builds it.\<close>

definition exSale :: Sale where
  "exSale =
     \<lparr>sale_id = ''SALE-1714557600000'', sale_timestamp = ''2024-05-01T10:00:00.000Z'',
      customerName = Some ''Walk-in Customer'', customerAddress = Some [], customerPhone = Some [],
      items = [\<lparr>productId = ''P'', item_name = ''Widget'', quantity = 3, price = 10,
                item_total = 30, returnedQuantity = None\<rparr>],
      subtotal = 30, tax = 3 / 2, total = 63 / 2, paymentMethod = Cash, processedBy = None\<rparr>"

text \<open>The shop after the administrator has completed that sale, and a later clock.\<close>

definition exShop :: AppState where
  "exShop = completeSale exEnv exSale (exState (Some exAdmin))"

definition exLater :: Env where
  "exLater = \<lparr>nowISO = ''2024-05-02T09:30:00.000Z'', nowMs = ''1714642200000'', rnd5 = ''p0z7m''\<rparr>"

text \<open>The same sale with a quantity of 15, more than the stock of \<open>P\<close>.\<close>

definition exOversell :: Sale where
  "exOversell = exSale\<lparr>items := map (\<lambda>i. i\<lparr>quantity := 15, item_total := 150\<rparr>) (items exSale),
                       subtotal := 150, tax := 15 / 2, total := 315 / 2\<rparr>"

text \<open>A bulk update that sets the stock field to 99 and nothing else.\<close>

definition exUpdates :: ProductUpdates where
  "exUpdates =
     \<lparr>upd_id = None, upd_name = None, upd_sku = None, upd_category = None, upd_buyPrice = None,
      upd_marginPercent = None, upd_sellPrice = None, upd_stock = Some 99, upd_minStock = None,
      upd_description = None, upd_lastRestocked = None, upd_stockHistory = None\<rparr>"

text \<open>Three clicks on \<open>P\<close> at an empty cart, and the component state holding that cart.\<close>

definition exCart :: "SaleItem list" where
  "exCart = addToCart exProduct (addToCart exProduct (addToCart exProduct []))"

definition exPos :: PosState where
  "exPos = \<lparr>cart = exCart, pos_customerName = [], pos_customerAddress = [],
            pos_customerPhone = [], pos_paymentMethod = Cash, completedSale = None\<rparr>"

text \<open>One click on \<open>Q\<close> (unit price 3) at an empty cart.\<close>

definition exCartQ :: "SaleItem list" where
  "exCartQ = addToCart exGadget []"

definition exPosQ :: PosState where
  "exPosQ = \<lparr>cart = exCartQ, pos_customerName = [], pos_customerAddress = [],
             pos_customerPhone = [], pos_paymentMethod = Cash, completedSale = None\<rparr>"

text \<open>
  Lower-casing of the letters \<open>A\<close> to \<open>Z\<close>, every other character kept: what
  \<open>toLowerCase\<close> does on a string of ASCII characters, as all strings of the example are.
\<close>

definition ascii_lower_char :: "char \<Rightarrow> char" where
  "ascii_lower_char c =
     (if CHR ''A'' \<le> c \<and> c \<le> CHR ''Z'' then char_of (of_char c + (32::nat)) else c)"

definition ascii_lower :: "string \<Rightarrow> string" where
  "ascii_lower s = map ascii_lower_char s"

text \<open>A third product, and the catalogue of the three in the order they were added.\<close>

definition exAnvil :: Product where
  "exAnvil =
     \<lparr>prod_id = ''R'', prod_name = ''anvil'', sku = ''A-1'', category = ''Tools'',
      buyPrice = 40, marginPercent = 25, sellPrice = 50, stock = 4, minStock = 1,
      description = ''cast iron'', lastRestocked = ''2024-02-01T00:00:00.000Z'',
      stockHistory = [\<lparr>log_id = ''LOG-2'', log_timestamp = ''2024-02-01T00:00:00.000Z'',
                       log_type = INITIAL, amount = 4, balance = 4, reason = None\<rparr>]\<rparr>"

definition exCatalog :: "Product list" where
  "exCatalog = [exProduct, exGadget, exAnvil]"

section \<open>Restock and adjustment\<close>

lemma isAdmin_exAdmin: "isAdmin (exState (Some exAdmin))"
  by (simp add: isAdmin_def exState_def exAdmin_def)

lemma not_isAdmin_exSeller: "\<not> isAdmin (exState (Some exSeller))"
  by (simp add: isAdmin_def exState_def exSeller_def)

text \<open>
  C4, as stated, fails: \<open>restockProduct\<close> has no check of the amount. Restocking \<open>P\<close>
  (stock 10) by -3 as an administrator is not rejected: the stock becomes 7 and a
  \<open>RESTOCK\<close> movement is put in front of the ledger.
\<close>

theorem restock_nonpositive_counterexample:
  "(- 3 :: int) \<le> 0 \<and>
   map stock (products (restockProduct exEnv ''P'' (- 3) (exState (Some exAdmin)))) = [7, 4] \<and>
   map (map log_type \<circ> stockHistory)
       (products (restockProduct exEnv ''P'' (- 3) (exState (Some exAdmin))))
     = [[RESTOCK, INITIAL], [INITIAL]] \<and>
   restockProduct exEnv ''P'' (- 3) (exState (Some exAdmin)) \<noteq> exState (Some exAdmin)"
  by (simp add: restockProduct_def restockOne_def isAdmin_def exState_def exAdmin_def
      exProduct_def exGadget_def exEnv_def Let_def)

text \<open>
  C4, amended: \<open>restockProduct\<close> never fails and does not look at the sign of the amount.
  Called by an administrator with any amount, it adds the amount to the stock of the
  product with the given id, puts a \<open>RESTOCK\<close> movement of that amount (with the new stock
  as balance) in front of its ledger, and sets \<open>lastRestocked\<close>; the number of products and
  the sales are unchanged.
\<close>

theorem restockProduct_effect:
  assumes "isAdmin st" and "i < length (products st)" and "prod_id (products st ! i) = pid"
  shows "stock (products (restockProduct e pid amt st) ! i) = stock (products st ! i) + amt \<and>
         (\<exists>l. stockHistory (products (restockProduct e pid amt st) ! i)
                = l # stockHistory (products st ! i)
              \<and> log_type l = RESTOCK \<and> amount l = amt
              \<and> balance l = stock (products st ! i) + amt) \<and>
         lastRestocked (products (restockProduct e pid amt st) ! i) = nowISO e \<and>
         length (products (restockProduct e pid amt st)) = length (products st) \<and>
         sales (restockProduct e pid amt st) = sales st"
  using assms by (simp add: restockProduct_def restockOne_def Let_def)

theorem restockProduct_effect_witness:
  "isAdmin (exState (Some exAdmin)) \<and>
   stock (products (restockProduct exEnv ''P'' 5 (exState (Some exAdmin))) ! 0) = 15 \<and>
   lastRestocked (products (restockProduct exEnv ''P'' 5 (exState (Some exAdmin))) ! 0)
     = ''2024-05-01T10:00:00.000Z''"
proof -
  have i: "0 < length (products (exState (Some exAdmin)))"
    by (simp add: exState_def)
  have p: "prod_id (products (exState (Some exAdmin)) ! 0) = ''P''"
    by (simp add: exState_def exProduct_def)
  have s: "stock (products (exState (Some exAdmin)) ! 0) = 10"
    by (simp add: exState_def exProduct_def)
  have n: "nowISO exEnv = ''2024-05-01T10:00:00.000Z''"
    by (simp add: exEnv_def)
  from restockProduct_effect [OF isAdmin_exAdmin i p, of exEnv 5]
  have "stock (products (restockProduct exEnv ''P'' 5 (exState (Some exAdmin))) ! 0)
          = stock (products (exState (Some exAdmin)) ! 0) + 5"
    and "lastRestocked (products (restockProduct exEnv ''P'' 5 (exState (Some exAdmin))) ! 0)
          = nowISO exEnv"
    by blast+
  then show ?thesis using isAdmin_exAdmin s n by simp
qed

text \<open>
  C5: \<open>adjustStock\<close>, called by an administrator for a product that exists, never fails:
  for an amount of any sign the new stock is \<open>max 0 (stock + amount)\<close>, hence never
  negative, and an \<open>ADJUSTMENT\<close> movement with the requested amount, the reason and the
  new stock as balance is put in front of the ledger.
\<close>

theorem adjustStock_clamps:
  assumes "isAdmin st" and "i < length (products st)" and "prod_id (products st ! i) = pid"
  shows "stock (products (adjustStock e pid amt rsn st) ! i)
           = max 0 (stock (products st ! i) + amt) \<and>
         (\<exists>l. stockHistory (products (adjustStock e pid amt rsn st) ! i)
                = l # stockHistory (products st ! i)
              \<and> log_type l = ADJUSTMENT \<and> amount l = amt \<and> reason l = Some rsn
              \<and> balance l = max 0 (stock (products st ! i) + amt)) \<and>
         0 \<le> stock (products (adjustStock e pid amt rsn st) ! i)"
  using assms by (simp add: adjustStock_def adjustOne_def Let_def)

theorem adjustStock_clamps_witness:
  "isAdmin (exState (Some exAdmin)) \<and>
   stock (products (adjustStock exEnv ''P'' (- 15) ''count'' (exState (Some exAdmin))) ! 0) = 0 \<and>
   stock (products (adjustStock exEnv ''P'' 4 ''found'' (exState (Some exAdmin))) ! 0) = 14"
proof -
  have i: "0 < length (products (exState (Some exAdmin)))"
    by (simp add: exState_def)
  have p: "prod_id (products (exState (Some exAdmin)) ! 0) = ''P''"
    by (simp add: exState_def exProduct_def)
  have s: "stock (products (exState (Some exAdmin)) ! 0) = 10"
    by (simp add: exState_def exProduct_def)
  from adjustStock_clamps [OF isAdmin_exAdmin i p, of exEnv "- 15" "''count''"]
  have a: "stock (products (adjustStock exEnv ''P'' (- 15) ''count'' (exState (Some exAdmin))) ! 0)
          = max 0 (stock (products (exState (Some exAdmin)) ! 0) + (- 15))"
    by blast
  from adjustStock_clamps [OF isAdmin_exAdmin i p, of exEnv 4 "''found''"]
  have b: "stock (products (adjustStock exEnv ''P'' 4 ''found'' (exState (Some exAdmin))) ! 0)
          = max 0 (stock (products (exState (Some exAdmin)) ! 0) + 4)"
    by blast
  show ?thesis using isAdmin_exAdmin a b s by simp
qed

section \<open>The role gate\<close>

text \<open>
  C10: when the current user is not an administrator (or nobody is logged in), restock,
  adjustment, return, product creation, update, bulk update and deletion, and the three
  category operations return the state as it is. \<open>completeSale\<close> has no such gate: it puts
  the sale in front of the sales and, for every product that a line of the sale names,
  takes the quantity of the first such line from its stock.
\<close>

theorem non_admin_noop:
  assumes "\<not> isAdmin st"
  shows "restockProduct e pid amt st = st \<and>
         adjustStock e pid amt rsn st = st \<and>
         processReturn e saleId returns st = st \<and>
         addProduct e p st = st \<and>
         updateProduct e p st = st \<and>
         bulkUpdateProducts ids updates st = st \<and>
         deleteProduct pid st = st \<and>
         addCategory c st = st \<and>
         renameCategory c c' st = st \<and>
         deleteCategory c st = st \<and>
         sales (completeSale e sale st) \<noteq> sales st \<and>
         length (sales (completeSale e sale st)) = Suc (length (sales st)) \<and>
         (\<forall>i it. i < length (products st) \<and>
             find (\<lambda>item. productId item = prod_id (products st ! i)) (items sale) = Some it
           \<longrightarrow> stock (products (completeSale e sale st) ! i)
                 = stock (products st ! i) - quantity it)"
  using assms
  by (simp add: restockProduct_def adjustStock_def processReturn_def addProduct_def
      updateProduct_def bulkUpdateProducts_def deleteProduct_def addCategory_def
      renameCategory_def deleteCategory_def completeSale_def sellOne_def Let_def)

theorem non_admin_noop_witness:
  "\<not> isAdmin (exState (Some exSeller)) \<and>
   restockProduct exEnv ''P'' 5 (exState (Some exSeller)) = exState (Some exSeller) \<and>
   adjustStock exEnv ''P'' (- 4) ''count'' (exState (Some exSeller)) = exState (Some exSeller) \<and>
   deleteProduct ''P'' (exState (Some exSeller)) = exState (Some exSeller) \<and>
   bulkUpdateProducts [''P''] exUpdates (exState (Some exSeller)) = exState (Some exSeller) \<and>
   stock (products (completeSale exEnv exSale (exState (Some exSeller))) ! 0) = 7 \<and>
   length (sales (completeSale exEnv exSale (exState (Some exSeller)))) = 1"
proof -
  have na: "\<not> isAdmin (exState (Some exSeller))"
    by (rule not_isAdmin_exSeller)
  have f: "find (\<lambda>item. productId item = prod_id (products (exState (Some exSeller)) ! 0))
             (items exSale) = Some (hd (items exSale))"
    by (simp add: exState_def exSale_def exProduct_def)
  note t = non_admin_noop [OF na, of exEnv "''P''" _ _ _ _ _ "[''P'']" exUpdates _ _ exSale]
  have s: "stock (products (completeSale exEnv exSale (exState (Some exSeller))) ! 0) = 7"
    using t f by (simp add: exState_def exSale_def exProduct_def)
  show ?thesis using na t s by (simp add: exState_def)
qed

section \<open>Sale completion\<close>

text \<open>
  C1, as stated, fails: \<open>completeSale\<close> compares no quantity with any stock and has no
  failure result. Handed a sale of 15 units of \<open>P\<close> (stock 10), it records the sale and
  takes the stock of \<open>P\<close> down to -5.
\<close>

theorem completeSale_oversell_counterexample:
  "quantity (hd (items exOversell)) > stock exProduct \<and>
   map stock (products (completeSale exEnv exOversell (exState (Some exSeller)))) = [- 5, 4] \<and>
   map sale_id (sales (completeSale exEnv exOversell (exState (Some exSeller))))
     = [''SALE-1714557600000'']"
  by (simp add: completeSale_def sellOne_def exState_def exOversell_def exSale_def
      exProduct_def exGadget_def Let_def)

text \<open>
  C1, amended: \<open>completeSale\<close> never fails and checks nothing. It always puts the sale
  (stamped with the user's name) in front of the sales; a product that no line of the
  sale names is left as it is; a product that some line names loses the quantity of the
  first such line and gets a \<open>SALE\<close> movement of minus that quantity in front of its
  ledger. Hence no stock is below 0 afterwards provided that no stock was below 0 before
  and, for every product, the first line naming it asks for no more than its stock.
\<close>

theorem completeSale_effect:
  "sales (completeSale e sale st)
     = sale\<lparr>processedBy := map_option fullName (currentUser st)\<rparr> # sales st \<and>
   length (products (completeSale e sale st)) = length (products st) \<and>
   (\<forall>i < length (products st).
      case find (\<lambda>item. productId item = prod_id (products st ! i)) (items sale) of
        None \<Rightarrow> products (completeSale e sale st) ! i = products st ! i
      | Some it \<Rightarrow>
          stock (products (completeSale e sale st) ! i) = stock (products st ! i) - quantity it \<and>
          (\<exists>l. stockHistory (products (completeSale e sale st) ! i)
                 = l # stockHistory (products st ! i)
               \<and> log_type l = SALE \<and> amount l = - quantity it
               \<and> balance l = stock (products st ! i) - quantity it)) \<and>
   ((\<forall>i < length (products st). 0 \<le> stock (products st ! i) \<and>
        (\<forall>it. find (\<lambda>item. productId item = prod_id (products st ! i)) (items sale) = Some it
              \<longrightarrow> quantity it \<le> stock (products st ! i)))
     \<longrightarrow> (\<forall>i < length (products st). 0 \<le> stock (products (completeSale e sale st) ! i)))"
  by (auto simp add: completeSale_def sellOne_def Let_def split: option.splits)

theorem completeSale_effect_witness:
  "list_all (\<lambda>p. 0 \<le> stock p) (products (exState (Some exSeller))) \<and>
   stock (products (completeSale exEnv exSale (exState (Some exSeller))) ! 0) = 7 \<and>
   products (completeSale exEnv exSale (exState (Some exSeller))) ! 1 = exGadget \<and>
   list_all (\<lambda>p. 0 \<le> stock p)
     (products (completeSale exEnv exSale (exState (Some exSeller))))"
proof -
  have l: "length (products (exState (Some exSeller))) = 2"
    by (simp add: exState_def)
  have f0: "find (\<lambda>item. productId item = prod_id (products (exState (Some exSeller)) ! 0))
              (items exSale) = Some (hd (items exSale))"
    by (simp add: exState_def exSale_def exProduct_def)
  have f1: "find (\<lambda>item. productId item = prod_id (products (exState (Some exSeller)) ! 1))
              (items exSale) = None"
    by (simp add: exState_def exSale_def exGadget_def)
  have nonneg: "\<forall>i < length (products (exState (Some exSeller))).
                  0 \<le> stock (products (exState (Some exSeller)) ! i)"
    by (simp add: l less_Suc_eq exState_def exProduct_def exGadget_def numeral_2_eq_2)
  have fits: "\<forall>i < length (products (exState (Some exSeller))).
      0 \<le> stock (products (exState (Some exSeller)) ! i) \<and>
      (\<forall>it. find (\<lambda>item. productId item = prod_id (products (exState (Some exSeller)) ! i))
               (items exSale) = Some it
            \<longrightarrow> quantity it \<le> stock (products (exState (Some exSeller)) ! i))"
    by (simp add: l less_Suc_eq exState_def exProduct_def exGadget_def exSale_def
        numeral_2_eq_2)
  note t = completeSale_effect [of exEnv exSale "exState (Some exSeller)"]
  from t have
    each: "\<forall>i < length (products (exState (Some exSeller))).
      case find (\<lambda>item. productId item = prod_id (products (exState (Some exSeller)) ! i))
             (items exSale) of
        None \<Rightarrow> products (completeSale exEnv exSale (exState (Some exSeller))) ! i
                  = products (exState (Some exSeller)) ! i
      | Some it \<Rightarrow>
          stock (products (completeSale exEnv exSale (exState (Some exSeller))) ! i)
            = stock (products (exState (Some exSeller)) ! i) - quantity it \<and>
          (\<exists>l. stockHistory (products (completeSale exEnv exSale (exState (Some exSeller))) ! i)
                 = l # stockHistory (products (exState (Some exSeller)) ! i)
               \<and> log_type l = SALE \<and> amount l = - quantity it
               \<and> balance l = stock (products (exState (Some exSeller)) ! i) - quantity it)"
    by blast
  from t fits have
    after: "\<forall>i < length (products (exState (Some exSeller))).
      0 \<le> stock (products (completeSale exEnv exSale (exState (Some exSeller))) ! i)"
    by blast
  from each l f0 have
    "stock (products (completeSale exEnv exSale (exState (Some exSeller))) ! 0)
       = stock (products (exState (Some exSeller)) ! 0) - quantity (hd (items exSale))"
    by (auto dest!: spec [of _ 0])
  then have s0: "stock (products (completeSale exEnv exSale (exState (Some exSeller))) ! 0) = 7"
    by (simp add: exState_def exProduct_def exSale_def)
  from each l f1 have
    "products (completeSale exEnv exSale (exState (Some exSeller))) ! 1
       = products (exState (Some exSeller)) ! 1"
    by (auto dest!: spec [of _ 1])
  then have s1: "products (completeSale exEnv exSale (exState (Some exSeller))) ! 1 = exGadget"
    by (simp add: exState_def)
  from t have
    len: "length (products (completeSale exEnv exSale (exState (Some exSeller))))
            = length (products (exState (Some exSeller)))"
    by blast
  have before: "list_all (\<lambda>p. 0 \<le> stock p) (products (exState (Some exSeller)))"
    using nonneg by (simp add: list_all_length)
  have "list_all (\<lambda>p. 0 \<le> stock p)
          (products (completeSale exEnv exSale (exState (Some exSeller))))"
    using after len by (simp add: list_all_length)
  then show ?thesis using before s0 s1 by blast
qed

section \<open>Returns\<close>

lemma isAdmin_exShop: "isAdmin exShop"
  by (simp add: exShop_def completeSale_def isAdmin_def exState_def exAdmin_def)

lemma returnOne_id [simp]: "prod_id (returnOne e sid r p) = prod_id p"
  by (simp add: returnOne_def Let_def)

text \<open>The \<open>forEach\<close> of single-line passes over the products is one pass that folds the lines.\<close>

lemma returnProducts_map:
  "returnProducts e sid rets ps = map (\<lambda>p. foldl (\<lambda>q r. returnOne e sid r q) p rets) ps"
  by (induction rets arbitrary: ps) (simp_all add: comp_def)

lemma fold_return_stock:
  "stock (foldl (\<lambda>q r. returnOne e sid r q) p rets)
     = stock p + sum_list (map ret_quantity (linesFor p rets))"
proof (induction rets arbitrary: p)
  case Nil
  show ?case by (simp add: linesFor_def)
next
  case (Cons r rets)
  show ?case
    using Cons.IH [of "returnOne e sid r p"]
    by (simp add: linesFor_def) (simp add: returnOne_def Let_def)
qed

lemma fold_return_history:
  "\<exists>logs. stockHistory (foldl (\<lambda>q r. returnOne e sid r q) p rets) = logs @ stockHistory p
      \<and> map amount logs = rev (map ret_quantity (linesFor p rets))
      \<and> list_all (\<lambda>l. log_type l = RESTOCK) logs"
proof (induction rets arbitrary: p)
  case Nil
  show ?case by (simp add: linesFor_def)
next
  case (Cons r rets)
  from Cons.IH [of "returnOne e sid r p"] obtain logs where
    h: "stockHistory (foldl (\<lambda>q r. returnOne e sid r q) (returnOne e sid r p) rets)
          = logs @ stockHistory (returnOne e sid r p)"
    and a: "map amount logs = rev (map ret_quantity (linesFor (returnOne e sid r p) rets))"
    and t: "list_all (\<lambda>l. log_type l = RESTOCK) logs"
    by blast
  show ?case
  proof (cases "prod_id p = ret_productId r")
    case True
    obtain l where l: "stockHistory (returnOne e sid r p) = l # stockHistory p"
      "log_type l = RESTOCK" "amount l = ret_quantity r"
      using True by (simp add: returnOne_def Let_def)
    show ?thesis
      using h a t l True
      by (intro exI [of _ "logs @ [l]"]) (simp add: linesFor_def)
  next
    case False
    then have "returnOne e sid r p = p" by (simp add: returnOne_def)
    then show ?thesis
      using h a t False by (intro exI [of _ logs]) (auto simp add: linesFor_def)
  qed
qed

lemma returnItem_unmatched:
  assumes "\<forall>r \<in> set returns. ret_productId r \<noteq> productId it"
  shows "returnItem returns it = it"
proof -
  from assms have "find (\<lambda>r. ret_productId r = productId it) returns = None"
    by (simp add: find_None_iff)
  then show ?thesis by (simp add: returnItem_def)
qed


lemma returnItem_quantity [simp]: "quantity (returnItem returns it) = quantity it"
  by (simp add: returnItem_def split: option.splits)




lemma find_filter_same: "(\<And>x. P x \<Longrightarrow> Q x) \<Longrightarrow> find P (filter Q xs) = find P xs"
  by (induction xs) auto

lemma returnSale_named_lines:
  assumes "s \<in> set (sales st)"
  shows "returnSale saleId (filter (names_item st saleId) returns) s = returnSale saleId returns s"
proof (cases "sale_id s = saleId")
  case False
  then show ?thesis by (simp add: returnSale_def)
next
  case True
  have "returnItem (filter (names_item st saleId) returns) it = returnItem returns it"
    if "it \<in> set (items s)" for it
  proof -
    have "find (\<lambda>r. ret_productId r = productId it) (filter (names_item st saleId) returns)
            = find (\<lambda>r. ret_productId r = productId it) returns"
      using assms True that
      by (intro find_filter_same) (auto simp add: names_item_def list_ex_iff)
    then show ?thesis by (simp add: returnItem_def)
  qed
  then show ?thesis by (simp add: returnSale_def)
qed

text \<open>
  C9: \<open>processReturn\<close> updates the two stores independently. When no stored sale has the
  given id, or no request line names the product of an item of the sales with that id, the
  sales come back unchanged; in any case a request line that names no item of those sales
  changes no sale (the sales are the same with such lines left out of the request), and
  customers and categories are unchanged. Yet every product gains the quantities of the
  request lines that name it, with one \<open>RESTOCK\<close> movement per such line put in front of
  its ledger (the newest first).
\<close>

theorem processReturn_unmatched:
  assumes "isAdmin st"
  shows "((\<forall>s \<in> set (sales st). sale_id s \<noteq> saleId) \<or>
          (\<forall>s \<in> set (sales st). sale_id s = saleId \<longrightarrow>
             (\<forall>it \<in> set (items s). \<forall>r \<in> set returns. ret_productId r \<noteq> productId it))
          \<longrightarrow> sales (processReturn e saleId returns st) = sales st) \<and>
         sales (processReturn e saleId returns st)
           = sales (processReturn e saleId (filter (names_item st saleId) returns) st) \<and>
         customers (processReturn e saleId returns st) = customers st \<and>
         categories (processReturn e saleId returns st) = categories st \<and>
         length (products (processReturn e saleId returns st)) = length (products st) \<and>
         (\<forall>i < length (products st).
            stock (products (processReturn e saleId returns st) ! i)
              = stock (products st ! i)
                + sum_list (map ret_quantity (linesFor (products st ! i) returns)) \<and>
            (\<exists>logs. stockHistory (products (processReturn e saleId returns st) ! i)
                       = logs @ stockHistory (products st ! i)
                   \<and> map amount logs
                       = rev (map ret_quantity (linesFor (products st ! i) returns))
                   \<and> list_all (\<lambda>l. log_type l = RESTOCK) logs))"
proof -
  have same: "map (returnSale saleId returns) (sales st) = sales st"
    if h: "(\<forall>s \<in> set (sales st). sale_id s \<noteq> saleId) \<or>
          (\<forall>s \<in> set (sales st). sale_id s = saleId \<longrightarrow>
             (\<forall>it \<in> set (items s). \<forall>r \<in> set returns. ret_productId r \<noteq> productId it))"
  proof -
    have "returnSale saleId returns s = s" if s: "s \<in> set (sales st)" for s
    proof (cases "sale_id s = saleId")
      case False
      then show ?thesis by (simp add: returnSale_def)
    next
      case True
      with h s
      have "\<forall>it \<in> set (items s). \<forall>r \<in> set returns. ret_productId r \<noteq> productId it"
        by blast
      then have "map (returnItem returns) (items s) = items s"
        by (simp add: map_idI returnItem_unmatched)
      then show ?thesis by (simp add: returnSale_def)
    qed
    then show ?thesis by (simp add: map_idI)
  qed
  have named: "map (returnSale saleId returns) (sales st)
                 = map (returnSale saleId (filter (names_item st saleId) returns)) (sales st)"
    by (simp add: returnSale_named_lines)
  have sl: "sales (processReturn e saleId rs st) = map (returnSale saleId rs) (sales st)" for rs
    using assms by (simp add: processReturn_def)
  have c1: "(\<forall>s \<in> set (sales st). sale_id s \<noteq> saleId) \<or>
          (\<forall>s \<in> set (sales st). sale_id s = saleId \<longrightarrow>
             (\<forall>it \<in> set (items s). \<forall>r \<in> set returns. ret_productId r \<noteq> productId it))
          \<longrightarrow> sales (processReturn e saleId returns st) = sales st"
    using same by (simp only: sl) blast
  have c2: "sales (processReturn e saleId returns st)
           = sales (processReturn e saleId (filter (names_item st saleId) returns) st)"
    using named by (simp only: sl)
  have c3: "customers (processReturn e saleId returns st) = customers st \<and>
         categories (processReturn e saleId returns st) = categories st \<and>
         length (products (processReturn e saleId returns st)) = length (products st) \<and>
         (\<forall>i < length (products st).
            stock (products (processReturn e saleId returns st) ! i)
              = stock (products st ! i)
                + sum_list (map ret_quantity (linesFor (products st ! i) returns)) \<and>
            (\<exists>logs. stockHistory (products (processReturn e saleId returns st) ! i)
                       = logs @ stockHistory (products st ! i)
                   \<and> map amount logs
                       = rev (map ret_quantity (linesFor (products st ! i) returns))
                   \<and> list_all (\<lambda>l. log_type l = RESTOCK) logs))"
    using assms
    by (simp add: processReturn_def returnProducts_map fold_return_stock fold_return_history)
  show ?thesis using c1 c2 c3 by blast
qed

text \<open>
  A return against an unknown sale id still adds 4 to the stock of \<open>P\<close>; a return of \<open>Q\<close>,
  which the sale does not hold, still adds 2 to the stock of \<open>Q\<close>.
\<close>

theorem processReturn_unmatched_witness:
  "isAdmin exShop \<and>
   sales (processReturn exLater ''SALE-404'' [\<lparr>ret_productId = ''P'', ret_quantity = 4\<rparr>] exShop)
     = sales exShop \<and>
   stock (products (processReturn exLater ''SALE-404''
            [\<lparr>ret_productId = ''P'', ret_quantity = 4\<rparr>] exShop) ! 0) = 11 \<and>
   sales (processReturn exLater ''SALE-1714557600000''
            [\<lparr>ret_productId = ''Q'', ret_quantity = 2\<rparr>] exShop) = sales exShop \<and>
   stock (products (processReturn exLater ''SALE-1714557600000''
            [\<lparr>ret_productId = ''Q'', ret_quantity = 2\<rparr>] exShop) ! 1) = 6"
proof -
  have sl: "sales exShop = [exSale\<lparr>processedBy := Some ''Store Admin''\<rparr>]"
    by (simp add: exShop_def completeSale_def exState_def exAdmin_def)
  have pr: "map prod_id (products exShop) = [''P'', ''Q'']"
     "map stock (products exShop) = [7, 4]"
    by (simp_all add: exShop_def completeSale_def sellOne_def exState_def exSale_def
        exProduct_def exGadget_def Let_def)
  have h1: "(\<forall>s \<in> set (sales exShop). sale_id s \<noteq> ''SALE-404'') \<or>
         (\<forall>s \<in> set (sales exShop). sale_id s = ''SALE-404'' \<longrightarrow>
            (\<forall>it \<in> set (items s). \<forall>r \<in> set [\<lparr>ret_productId = ''P'', ret_quantity = 4\<rparr>].
               ret_productId r \<noteq> productId it))"
    by (simp add: sl exSale_def)
  have h2: "(\<forall>s \<in> set (sales exShop). sale_id s \<noteq> ''SALE-1714557600000'') \<or>
         (\<forall>s \<in> set (sales exShop). sale_id s = ''SALE-1714557600000'' \<longrightarrow>
            (\<forall>it \<in> set (items s). \<forall>r \<in> set [\<lparr>ret_productId = ''Q'', ret_quantity = 2\<rparr>].
               ret_productId r \<noteq> productId it))"
    by (simp add: sl exSale_def)
  note t1 = processReturn_unmatched [OF isAdmin_exShop, of "''SALE-404''"
      "[\<lparr>ret_productId = ''P'', ret_quantity = 4\<rparr>]" exLater]
  note t2 = processReturn_unmatched [OF isAdmin_exShop, of "''SALE-1714557600000''"
      "[\<lparr>ret_productId = ''Q'', ret_quantity = 2\<rparr>]" exLater]
  from t1 h1 have s1: "sales (processReturn exLater ''SALE-404''
      [\<lparr>ret_productId = ''P'', ret_quantity = 4\<rparr>] exShop) = sales exShop"
    by blast
  from t2 h2 have s2: "sales (processReturn exLater ''SALE-1714557600000''
      [\<lparr>ret_productId = ''Q'', ret_quantity = 2\<rparr>] exShop) = sales exShop"
    by blast
  obtain p q where pq: "products exShop = [p, q]" "prod_id p = ''P''" "prod_id q = ''Q''"
    "stock p = 7" "stock q = 4"
    using pr by auto
  have a: "stock (products (processReturn exLater ''SALE-404''
            [\<lparr>ret_productId = ''P'', ret_quantity = 4\<rparr>] exShop) ! 0)
       = stock p + sum_list (map ret_quantity (linesFor p
             [\<lparr>ret_productId = ''P'', ret_quantity = 4\<rparr>]))"
    using t1 pq(1) by simp
  have b: "stock (products (processReturn exLater ''SALE-1714557600000''
            [\<lparr>ret_productId = ''Q'', ret_quantity = 2\<rparr>] exShop) ! 1)
       = stock q + sum_list (map ret_quantity (linesFor q
             [\<lparr>ret_productId = ''Q'', ret_quantity = 2\<rparr>]))"
    using t2 pq(1) by simp
  show ?thesis using isAdmin_exShop s1 s2 a b pq by (simp add: linesFor_def)
qed

text \<open>
  C8 at a concrete input. A return of one unit of \<open>P\<close> puts a \<open>RESTOCK\<close> movement, stamped
  with the time of the return, in front of the ledger of \<open>P\<close>, but \<open>lastRestocked\<close> keeps
  its old value; the same state restocked by \<open>restockProduct\<close> has \<open>lastRestocked\<close> set to
  the time of the operation.
\<close>

theorem processReturn_keeps_lastRestocked:
  "map log_type (stockHistory (products (processReturn exLater ''SALE-1714557600000''
        [\<lparr>ret_productId = ''P'', ret_quantity = 1\<rparr>] exShop) ! 0))
     = [RESTOCK, SALE, INITIAL] \<and>
   log_timestamp (hd (stockHistory (products (processReturn exLater ''SALE-1714557600000''
        [\<lparr>ret_productId = ''P'', ret_quantity = 1\<rparr>] exShop) ! 0)))
     = ''2024-05-02T09:30:00.000Z'' \<and>
   lastRestocked (products (processReturn exLater ''SALE-1714557600000''
        [\<lparr>ret_productId = ''P'', ret_quantity = 1\<rparr>] exShop) ! 0)
     = ''2024-01-01T00:00:00.000Z'' \<and>
   lastRestocked (products (restockProduct exLater ''P'' 1 exShop) ! 0)
     = ''2024-05-02T09:30:00.000Z''"
  by (simp add: processReturn_def returnOne_def restockProduct_def restockOne_def isAdmin_def
      exShop_def completeSale_def sellOne_def exState_def exSale_def exAdmin_def
      exProduct_def exGadget_def exLater_def Let_def)

section \<open>The ledger invariant\<close>

lemma chain_ok_Cons:
  "chain_ok (l # ls) =
     (if ls = [] then log_type l = INITIAL \<and> amount l = balance l
      else balance l = balance (hd ls) + amount l \<and> chain_ok ls)"
  by (cases ls) simp_all

lemma chain_ok_replay: "chain_ok hist \<Longrightarrow> replay hist = balance (hd hist)"
proof (induction hist rule: chain_ok.induct)
  case 1
  then show ?case by simp
next
  case (2 l)
  then show ?case by (simp add: replay_def)
next
  case (3 l l' ls)
  then show ?case by (simp add: replay_def)
qed

lemma ledger_ok_replay: "ledger_ok p \<Longrightarrow> replay (stockHistory p) = stock p"
  by (simp add: ledger_ok_def chain_ok_replay)

lemma ledger_ok_nonempty: "ledger_ok p \<Longrightarrow> stockHistory p \<noteq> []"
  by (auto simp add: ledger_ok_def)

lemma ledger_ok_new: "ledger_ok (p\<lparr>stockHistory := [initialLog e p]\<rparr>)"
  by (simp add: ledger_ok_def initialLog_def)

lemma ledger_ok_restockOne: "ledger_ok p \<Longrightarrow> ledger_ok (restockOne e amt p)"
  by (auto simp add: ledger_ok_def restockOne_def Let_def chain_ok_Cons)

lemma ledger_ok_sellOne: "ledger_ok p \<Longrightarrow> ledger_ok (sellOne e sale p)"
  by (auto simp add: ledger_ok_def sellOne_def Let_def chain_ok_Cons split: option.splits)

lemma ledger_ok_returnOne: "ledger_ok p \<Longrightarrow> ledger_ok (returnOne e sid r p)"
  by (auto simp add: ledger_ok_def returnOne_def Let_def chain_ok_Cons)

lemma ledger_ok_updateOne: "ledger_ok p \<Longrightarrow> ledger_ok (updateOne e updated p)"
  by (auto simp add: ledger_ok_def updateOne_def Let_def chain_ok_Cons)

lemma ledger_ok_adjustOne:
  "ledger_ok p \<Longrightarrow> 0 \<le> stock p + amt \<Longrightarrow> ledger_ok (adjustOne e amt rsn p)"
  by (auto simp add: ledger_ok_def adjustOne_def Let_def chain_ok_Cons)

lemma ledger_ok_fold_return:
  "ledger_ok p \<Longrightarrow> ledger_ok (foldl (\<lambda>q r. returnOne e sid r q) p rets)"
  by (induction rets arbitrary: p) (simp_all add: ledger_ok_returnOne)

text \<open>
  The operations that keep the invariant for every product of the state: product creation,
  restock, sale completion, return, and the single-product update. An adjustment keeps it
  when it is not clamped.
\<close>

lemma ledger_ok_preserved:
  assumes "list_all ledger_ok (products st)"
  shows "list_all ledger_ok (products (addProduct e p st))"
    and "list_all ledger_ok (products (restockProduct e pid amt st))"
    and "list_all ledger_ok (products (completeSale e sale st))"
    and "list_all ledger_ok (products (processReturn e sid rets st))"
    and "list_all ledger_ok (products (updateProduct e updated st))"
    and "list_all ledger_ok (products (deleteProduct pid st))"
    and "list_all (\<lambda>q. 0 \<le> stock q + amt) (products st)
         \<Longrightarrow> list_all ledger_ok (products (adjustStock e pid amt rsn st))"
  using assms
  by (auto simp add: list_all_iff addProduct_def addCategory_def restockProduct_def
      completeSale_def processReturn_def returnProducts_map updateProduct_def
      deleteProduct_def adjustStock_def Let_def
      ledger_ok_new ledger_ok_restockOne ledger_ok_sellOne ledger_ok_fold_return
      ledger_ok_updateOne ledger_ok_adjustOne)

text \<open>
  C2 at two concrete inputs. The ledger of \<open>P\<close> (stock 10) satisfies the invariant.
  After \<open>adjustStock\<close> by -15 the stock is 0 and the new entry has amount -15 and balance
  0 on top of balance 10: the chain is broken and the replay gives -5. After a bulk update
  that sets the stock to 99 the ledger is as before: its newest balance and its replay are
  10, not 99.
\<close>

theorem ledger_broken_by_adjust_and_bulk:
  "ledger_ok exProduct \<and>
   replay (stockHistory exProduct) = stock exProduct \<and>
   map stock (products (adjustStock exEnv ''P'' (- 15) ''count'' (exState (Some exAdmin))))
     = [0, 4] \<and>
   map (\<lambda>l. (log_type l, amount l, balance l))
       (stockHistory (products (adjustStock exEnv ''P'' (- 15) ''count''
          (exState (Some exAdmin))) ! 0))
     = [(ADJUSTMENT, - 15, 0), (INITIAL, 10, 10)] \<and>
   \<not> chain_ok (stockHistory (products (adjustStock exEnv ''P'' (- 15) ''count''
          (exState (Some exAdmin))) ! 0)) \<and>
   replay (stockHistory (products (adjustStock exEnv ''P'' (- 15) ''count''
          (exState (Some exAdmin))) ! 0)) = - 5 \<and>
   map stock (products (bulkUpdateProducts [''P''] exUpdates (exState (Some exAdmin))))
     = [99, 4] \<and>
   map (\<lambda>l. (log_type l, amount l, balance l))
       (stockHistory (products (bulkUpdateProducts [''P''] exUpdates
          (exState (Some exAdmin))) ! 0))
     = [(INITIAL, 10, 10)] \<and>
   \<not> ledger_ok (products (bulkUpdateProducts [''P''] exUpdates (exState (Some exAdmin))) ! 0) \<and>
   replay (stockHistory (products (bulkUpdateProducts [''P''] exUpdates
          (exState (Some exAdmin))) ! 0)) = 10"
  by (simp add: ledger_ok_def replay_def adjustStock_def adjustOne_def bulkUpdateProducts_def
      spreadUpdates_def isAdmin_def exState_def exAdmin_def exProduct_def exGadget_def
      exUpdates_def Let_def)

section \<open>Rounding error of binary64 arithmetic\<close>

lemma round_even_err: "\<bar>of_int (round_even q) - q\<bar> \<le> 1 / 2"
proof -
  define r where "r = q - of_int \<lfloor>q\<rfloor>"
  have r: "0 \<le> r" "r < 1" unfolding r_def by linarith+
  have q: "q = of_int \<lfloor>q\<rfloor> + r" by (simp add: r_def)
  consider "r < 1 / 2" | "1 / 2 < r" | "r = 1 / 2" by linarith
  then show ?thesis
  proof cases
    case 1
    then have "round_even q = \<lfloor>q\<rfloor>" by (simp add: round_even_def Let_def r_def)
    then have "of_int (round_even q) - q = - r" by (simp add: r_def)
    moreover have "\<bar>- r\<bar> \<le> 1 / 2" using 1 r by simp
    ultimately show ?thesis by simp
  next
    case 2
    then have "round_even q = \<lfloor>q\<rfloor> + 1" by (simp add: round_even_def Let_def r_def)
    then have "of_int (round_even q) - q = 1 - r" by (simp add: r_def)
    moreover have "\<bar>1 - r\<bar> \<le> 1 / 2" using 2 r by simp
    ultimately show ?thesis by simp
  next
    case 3
    then have "round_even q = \<lfloor>q\<rfloor> \<or> round_even q = \<lfloor>q\<rfloor> + 1"
      by (simp add: round_even_def Let_def r_def)
    then have "of_int (round_even q) - q = - r \<or> of_int (round_even q) - q = 1 - r"
      by (auto simp add: r_def)
    moreover have "\<bar>- r\<bar> \<le> 1 / 2" "\<bar>1 - r\<bar> \<le> 1 / 2" using 3 by simp_all
    ultimately show ?thesis by auto
  qed
qed

lemma two_powi_nat: "0 \<le> k \<Longrightarrow> (2::rat) ^ nat k = 2 powi k"
  by (simp add: power_int_def)

lemma expo_bounds:
  assumes "x \<noteq> 0"
  shows "2 powi expo x \<le> \<bar>x\<bar>" and "\<bar>x\<bar> < 2 powi (expo x + 1)"
proof -
  obtain p q where pq: "quotient_of \<bar>x\<bar> = (p, q)" by (cases "quotient_of \<bar>x\<bar>")
  then have q: "0 < q" and x: "\<bar>x\<bar> = of_int p / of_int q"
    by (simp_all add: quotient_of_denom_pos quotient_of_div)
  from assms x q have p: "0 < p"
    by (metis abs_ge_zero divide_eq_0_iff linorder_not_le of_int_0_less_iff of_int_eq_0_iff
        zero_less_abs_iff zero_less_divide_iff order_less_le)
  from bitlen_bounds [OF p] have bp: "2 ^ nat (bitlen p - 1) \<le> p" "p < 2 ^ nat (bitlen p)"
    by simp_all
  from bitlen_bounds [OF q] have bq: "2 ^ nat (bitlen q - 1) \<le> q" "q < 2 ^ nat (bitlen q)"
    by simp_all
  have p1: "1 \<le> bitlen p" using p by (metis bitlen_eq_zero_iff bitlen_nonneg linorder_not_le
        order_less_le zle_add1_eq_le zero_less_one add_0)
  have q1: "1 \<le> bitlen q" using q by (metis bitlen_eq_zero_iff bitlen_nonneg linorder_not_le
        order_less_le zle_add1_eq_le zero_less_one add_0)
  have P: "(2::rat) powi (bitlen p - 1) \<le> of_int p" "of_int p < (2::rat) powi (bitlen p)"
  proof -
    have "(of_int (2 ^ nat (bitlen p - 1)) :: rat) \<le> of_int p"
      using bp(1) by (simp only: of_int_le_iff)
    then show "(2::rat) powi (bitlen p - 1) \<le> of_int p"
      using p1 by (simp add: two_powi_nat)
    have "(of_int p :: rat) < of_int (2 ^ nat (bitlen p))"
      using bp(2) by (simp only: of_int_less_iff)
    then show "of_int p < (2::rat) powi (bitlen p)"
      using p1 by (simp add: two_powi_nat)
  qed
  have Q: "(2::rat) powi (bitlen q - 1) \<le> of_int q" "of_int q < (2::rat) powi (bitlen q)"
  proof -
    have "(of_int (2 ^ nat (bitlen q - 1)) :: rat) \<le> of_int q"
      using bq(1) by (simp only: of_int_le_iff)
    then show "(2::rat) powi (bitlen q - 1) \<le> of_int q"
      using q1 by (simp add: two_powi_nat)
    have "(of_int q :: rat) < of_int (2 ^ nat (bitlen q))"
      using bq(2) by (simp only: of_int_less_iff)
    then show "of_int q < (2::rat) powi (bitlen q)"
      using q1 by (simp add: two_powi_nat)
  qed
  let ?d = "bitlen p - bitlen q"
  have qpos: "(0::rat) < of_int q" using q by simp
  have pw: "(0::rat) < 2 powi k" for k by simp
  have up: "\<bar>x\<bar> < 2 powi (?d + 1)"
  proof -
    have "of_int p / of_int q < (2::rat) powi (bitlen p) / of_int q"
      using P(2) qpos by (simp add: divide_strict_right_mono)
    also have "\<dots> \<le> 2 powi (bitlen p) / 2 powi (bitlen q - 1)"
      using Q(1) pw by (simp add: frac_le)
    also have "\<dots> = 2 powi (bitlen p - (bitlen q - 1))"
      by (rule power_int_diff [symmetric]) simp
    also have "\<dots> = 2 powi (?d + 1)"
      by (simp add: algebra_simps)
    finally show ?thesis by (simp add: x)
  qed
  have lo: "2 powi (?d - 1) \<le> \<bar>x\<bar>"
  proof -
    have "(2::rat) powi (?d - 1) = 2 powi ((bitlen p - 1) - bitlen q)"
      by (simp add: algebra_simps)
    also have "\<dots> = 2 powi (bitlen p - 1) / 2 powi (bitlen q)"
      by (rule power_int_diff) simp
    also have "\<dots> \<le> of_int p / 2 powi (bitlen q)"
      using P(1) pw by (simp add: divide_right_mono)
    also have "\<dots> \<le> of_int p / of_int q"
      using Q(2) p qpos by (simp add: frac_le)
    finally show ?thesis by (simp add: x)
  qed
  have e: "expo x = (if 2 powi ?d \<le> \<bar>x\<bar> then ?d else ?d - 1)"
    by (simp add: expo_def pq Let_def)
  show "2 powi expo x \<le> \<bar>x\<bar>" using lo by (simp add: e)
  show "\<bar>x\<bar> < 2 powi (expo x + 1)" using up by (auto simp add: e not_le)
qed

lemma to_double_error:
  assumes "2 powi (- 1022) \<le> \<bar>x\<bar>"
  shows "\<bar>to_double x - x\<bar> \<le> \<bar>x\<bar> / 2 ^ 53"
proof -
  have pos: "(0::rat) < 2 powi (- 1022)" by simp
  with assms have nz: "x \<noteq> 0" by auto
  have "(2::rat) powi (- 1022) < 2 powi (expo x + 1)"
    using assms expo_bounds(2) [OF nz] by simp
  then have "- 1022 < expo x + 1"
    using power_int_increasing [of "expo x + 1" "- 1022" "2::rat"] by (cases "- 1022 < expo x + 1") auto
  then have m: "max (expo x) (- 1022) = expo x" by simp
  let ?u = "(2::rat) powi (expo x - 52)"
  have u: "0 < ?u" by simp
  have d: "to_double x = of_int (round_even (x / ?u)) * ?u"
    using nz by (simp add: to_double_def m Let_def)
  have "\<bar>to_double x - x\<bar> = \<bar>of_int (round_even (x / ?u)) - x / ?u\<bar> * ?u"
  proof -
    have "to_double x - x = (of_int (round_even (x / ?u)) - x / ?u) * ?u"
      using u by (simp add: d field_simps)
    then show ?thesis using u by (simp add: abs_mult)
  qed
  also have "\<dots> \<le> 1 / 2 * ?u"
    using round_even_err [of "x / ?u"] u by (simp add: mult_right_mono)
  also have "\<dots> = 2 powi expo x / 2 ^ 53"
    by (simp add: power_int_diff)
  also have "\<dots> \<le> \<bar>x\<bar> / 2 ^ 53"
    using expo_bounds(1) [OF nz] by (simp add: divide_right_mono)
  finally show ?thesis .
qed

text \<open>The literal \<open>0.05\<close> is the binary64 value \<open>3602879701896397 / 2^56\<close>, a little above 5/100.\<close>

lemma literal_0_05_value: "literal_0_05 = 3602879701896397 / 2 ^ 56"
  unfolding literal_0_05_def by code_simp

lemma literal_0_05_excess: "literal_0_05 = 5 / 100 * (1 + 1 / 2 ^ 54)"
  by (simp add: literal_0_05_value)

text \<open>
  Known binary64 results: ties go to the even significand; 0.1 is 3602879701896397 / 2^55;
  0.1 + 0.2 is 0.30000000000000004, not the binary64 value of 0.3.
\<close>

lemma to_double_known:
  "to_double (1 + 1 / 2 ^ 53) = 1"
  "to_double (1 + 3 / 2 ^ 53) = 1 + 1 / 2 ^ 51"
  "to_double (1 / 10) = 3602879701896397 / 2 ^ 55"
  "js_add (to_double (1 / 10)) (to_double (2 / 10)) = 1351079888211149 / 2 ^ 52"
  "js_add (to_double (1 / 10)) (to_double (2 / 10)) \<noteq> to_double (3 / 10)"
  "is_double literal_0_05" "is_double 10" "is_double (63 / 2)"
  by code_simp+

section \<open>Sale totals\<close>

lemma pos_arith_examples:
  "js_mul 2 10 = 20" "js_mul 3 10 = 30" "js_add 0 30 = 30"
  "js_mul 30 literal_0_05 = 3 / 2" "js_add 30 (js_mul 30 literal_0_05) = 63 / 2"
  "js_add 0 3 = 3" "js_mul 3 literal_0_05 = 5404319552844596 / 2 ^ 55"
  "js_add 3 (js_mul 3 literal_0_05) = 7093169413108531 / 2 ^ 51"
  "js_add 30 (3 / 2) = 63 / 2"
  "js_add 3 (1351079888211149 / 9007199254740992) = 7093169413108531 / 2251799813685248"
  by code_simp+

text \<open>The example cart, and the example sale as the sale that the point of sale builds from it.\<close>

lemma exCart_value:
  "exCart = [\<lparr>productId = ''P'', item_name = ''Widget'', quantity = 3, price = 10,
              item_total = 30, returnedQuantity = None\<rparr>]"
  by (simp add: exCart_def addToCart_def exProduct_def pos_arith_examples)

lemma exSale_built: "mkSale exEnv exPos = exSale"
  by (simp add: mkSale_def exPos_def exCart_value exEnv_def exSale_def
      cartTotal_def cartTax_def cartSubtotal_def pos_arith_examples)

text \<open>Every way the component builds or changes the cart keeps the line totals right.\<close>

lemma line_ok_addToCart:
  "list_all line_ok xs \<Longrightarrow> is_double (sellPrice product)
   \<Longrightarrow> list_all line_ok (addToCart product xs)"
  by (auto simp add: addToCart_def list_all_iff line_ok_def js_mul_def is_double_def
      split: option.splits)

lemma line_ok_map_filter:
  "list_all line_ok xs \<Longrightarrow> (\<And>x y. line_ok x \<Longrightarrow> f x = Some y \<Longrightarrow> line_ok y)
   \<Longrightarrow> list_all line_ok (List.map_filter f xs)"
  by (induction xs) (auto split: option.splits)

lemma line_ok_updateQuantity:
  "list_all line_ok xs \<Longrightarrow> list_all line_ok (updateQuantity prods pid delta xs)"
  unfolding updateQuantity_def
  by (erule line_ok_map_filter) (auto simp add: line_ok_def Let_def split: if_splits)

lemma line_ok_updateFirst:
  "list_all line_ok xs \<Longrightarrow> (\<And>x. line_ok x \<Longrightarrow> line_ok (f x))
   \<Longrightarrow> list_all line_ok (updateFirst P f xs)"
  by (induction xs) simp_all

lemma line_ok_addScannedOne:
  "list_all line_ok xs \<Longrightarrow> list_all line_ok (addScannedOne xs item)"
  by (auto simp add: addScannedOne_def Let_def line_ok_def split: option.splits
      intro!: line_ok_updateFirst)

lemma line_ok_foldl_scanned:
  "list_all line_ok xs \<Longrightarrow> list_all line_ok (foldl addScannedOne xs its)"
  by (induction its arbitrary: xs) (simp_all add: line_ok_addScannedOne)

lemma line_ok_addScannedToCart:
  "list_all line_ok xs \<Longrightarrow> list_all line_ok (addScannedToCart scanned xs)"
  by (simp add: addScannedToCart_def line_ok_foldl_scanned)

lemma line_ok_subtotal:
  "list_all line_ok xs \<Longrightarrow>
   foldl (\<lambda>acc item. to_double (acc + item_total item)) a xs
     = foldl (\<lambda>acc item. to_double (acc + to_double (of_int (quantity item) * price item))) a xs"
  by (induction xs arbitrary: a) (simp_all add: line_ok_def js_mul_def)

text \<open>
  C6, as stated, fails: the totals are binary64 results. For a cart of one unit of \<open>Q\<close> at
  unit price 3 the subtotal is 3 and the tax stored is \<open>3 * 0.05\<close> in binary64, which is
  5404319552844596 / 2^55 (printed 0.15000000000000002), not 5% of 3; the total stored is
  the binary64 value nearest to 3.15, not the sum of the stored subtotal and tax.
\<close>

theorem handleFinish_tax_counterexample:
  "map (\<lambda>i. (productId i, quantity i, price i)) (cart exPosQ) = [(''Q'', 1, 3)] \<and>
   subtotal (hd (sales (snd (handleFinish exEnv exPosQ (exState (Some exSeller)))))) = 3 \<and>
   tax (hd (sales (snd (handleFinish exEnv exPosQ (exState (Some exSeller))))))
     = 5404319552844596 / 2 ^ 55 \<and>
   tax (hd (sales (snd (handleFinish exEnv exPosQ (exState (Some exSeller))))))
     \<noteq> subtotal (hd (sales (snd (handleFinish exEnv exPosQ (exState (Some exSeller)))))) * 5 / 100 \<and>
   total (hd (sales (snd (handleFinish exEnv exPosQ (exState (Some exSeller))))))
     = 7093169413108531 / 2 ^ 51 \<and>
   total (hd (sales (snd (handleFinish exEnv exPosQ (exState (Some exSeller))))))
     \<noteq> subtotal (hd (sales (snd (handleFinish exEnv exPosQ (exState (Some exSeller))))))
       + tax (hd (sales (snd (handleFinish exEnv exPosQ (exState (Some exSeller))))))"
proof -
  have c: "cart exPosQ = [\<lparr>productId = ''Q'', item_name = ''Gadget'', quantity = 1, price = 3,
              item_total = 3, returnedQuantity = None\<rparr>]"
    by (simp add: exPosQ_def exCartQ_def addToCart_def exGadget_def)
  have s: "subtotal (hd (sales (snd (handleFinish exEnv exPosQ (exState (Some exSeller)))))) = 3"
    by (simp add: handleFinish_def mkSale_def completeSale_def Let_def c cartSubtotal_def
        pos_arith_examples)
  have t: "tax (hd (sales (snd (handleFinish exEnv exPosQ (exState (Some exSeller))))))
             = 5404319552844596 / 2 ^ 55"
    by (simp add: handleFinish_def mkSale_def completeSale_def Let_def c cartSubtotal_def
        cartTax_def pos_arith_examples)
  have u: "total (hd (sales (snd (handleFinish exEnv exPosQ (exState (Some exSeller))))))
             = 7093169413108531 / 2 ^ 51"
    by (simp add: handleFinish_def mkSale_def completeSale_def Let_def c cartSubtotal_def
        cartTax_def cartTotal_def pos_arith_examples)
  show ?thesis by (simp add: s t u) (simp add: c)
qed


text \<open>The binary64 product with the literal \<open>0.05\<close> is within \<open>2^-52\<close>, relatively, of 5%.\<close>

lemma tax_error:
  assumes "2 powi (- 1022) \<le> \<bar>s * literal_0_05\<bar>"
  shows "\<bar>js_mul s literal_0_05 - s * 5 / 100\<bar> \<le> \<bar>s * 5 / 100\<bar> / 2 ^ 52"
proof -
  define b where "b = s * 5 / 100"
  define y where "y = s * literal_0_05"
  define t where "t = to_double y"
  have y: "y = b + b / 2 ^ 54"
    by (simp add: y_def b_def literal_0_05_excess algebra_simps)
  have yabs: "\<bar>y\<bar> = \<bar>b\<bar> + \<bar>b\<bar> / 2 ^ 54"
  proof -
    have "y = b * (1 + 1 / 2 ^ 54)" by (simp add: y algebra_simps)
    then have "\<bar>y\<bar> = \<bar>b\<bar> * \<bar>1 + 1 / 2 ^ 54 :: rat\<bar>" by (simp only: abs_mult)
    then show ?thesis by (simp add: algebra_simps)
  qed
  have d: "\<bar>y - b\<bar> = \<bar>b\<bar> / 2 ^ 54"
  proof -
    have e: "y - b = b / 2 ^ 54" by (simp add: y)
    have "\<bar>y - b\<bar> = \<bar>b / 2 ^ 54\<bar>" by (simp only: e)
    also have "\<dots> = \<bar>b\<bar> / 2 ^ 54" by (simp add: abs_divide)
    finally show ?thesis .
  qed
  from to_double_error [of y] assms have r: "\<bar>t - y\<bar> \<le> (\<bar>b\<bar> + \<bar>b\<bar> / 2 ^ 54) / 2 ^ 53"
    by (simp only: t_def y_def [symmetric] yabs [symmetric])
  have "\<bar>t - b\<bar> \<le> \<bar>t - y\<bar> + \<bar>y - b\<bar>" by linarith
  also have "\<dots> \<le> (\<bar>b\<bar> + \<bar>b\<bar> / 2 ^ 54) / 2 ^ 53 + \<bar>b\<bar> / 2 ^ 54"
    using r d by linarith
  also have "\<dots> \<le> \<bar>b\<bar> / 2 ^ 52"
  proof -
    have "0 \<le> \<bar>b\<bar>" by simp
    then show ?thesis by (simp add: field_simps)
  qed
  finally show ?thesis by (simp only: t_def y_def b_def js_mul_def)
qed

text \<open>
  C6, amended. The specification's \<open>completeSale(items, customer, paymentMethod)\<close> is
  \<open>handleFinish\<close> of the point of sale followed by \<open>completeSale\<close> of the application, which
  stores the sale it is handed. For a cart that is not empty, the sale put in front of the
  sales has the cart as its items; its subtotal is the sum of the line totals, its tax the
  product of the subtotal and 0.05 and its total the sum of subtotal and tax, each
  operation rounded to binary64; when every line total is the binary64 product of
  quantity and unit price, as the cart operations keep it, the subtotal is the rounded sum
  of those products. So the tax is 5% of the subtotal up to a relative error of \<open>2^-52\<close>,
  and the total is subtotal plus tax up to a relative error of \<open>2^-53\<close> (in the normal
  range of binary64), not exactly.
\<close>

theorem handleFinish_totals:
  assumes "cart pos \<noteq> []"
  shows "length (sales (snd (handleFinish e pos st))) = Suc (length (sales st)) \<and>
         items (hd (sales (snd (handleFinish e pos st)))) = cart pos \<and>
         subtotal (hd (sales (snd (handleFinish e pos st))))
           = foldl (\<lambda>acc item. to_double (acc + item_total item)) 0 (cart pos) \<and>
         tax (hd (sales (snd (handleFinish e pos st))))
           = to_double (subtotal (hd (sales (snd (handleFinish e pos st)))) * to_double (5 / 100)) \<and>
         total (hd (sales (snd (handleFinish e pos st))))
           = to_double (subtotal (hd (sales (snd (handleFinish e pos st))))
                        + tax (hd (sales (snd (handleFinish e pos st))))) \<and>
         (list_all line_ok (cart pos) \<longrightarrow>
            subtotal (hd (sales (snd (handleFinish e pos st))))
              = foldl (\<lambda>acc item. to_double (acc + to_double (of_int (quantity item) * price item)))
                  0 (cart pos)) \<and>
         (2 powi (- 1022)
            \<le> \<bar>subtotal (hd (sales (snd (handleFinish e pos st)))) * to_double (5 / 100)\<bar> \<longrightarrow>
            \<bar>tax (hd (sales (snd (handleFinish e pos st))))
               - subtotal (hd (sales (snd (handleFinish e pos st)))) * 5 / 100\<bar>
              \<le> \<bar>subtotal (hd (sales (snd (handleFinish e pos st)))) * 5 / 100\<bar> / 2 ^ 52) \<and>
         (2 powi (- 1022)
            \<le> \<bar>subtotal (hd (sales (snd (handleFinish e pos st))))
                 + tax (hd (sales (snd (handleFinish e pos st))))\<bar> \<longrightarrow>
            \<bar>total (hd (sales (snd (handleFinish e pos st))))
               - (subtotal (hd (sales (snd (handleFinish e pos st))))
                  + tax (hd (sales (snd (handleFinish e pos st)))))\<bar>
              \<le> \<bar>subtotal (hd (sales (snd (handleFinish e pos st))))
                    + tax (hd (sales (snd (handleFinish e pos st))))\<bar> / 2 ^ 53)"
proof -
  let ?S = "hd (sales (snd (handleFinish e pos st)))"
  have sale: "?S = (mkSale e pos)\<lparr>processedBy := map_option fullName (currentUser st)\<rparr>"
    and len: "length (sales (snd (handleFinish e pos st))) = Suc (length (sales st))"
    using assms by (simp_all add: handleFinish_def completeSale_def Let_def)
  have it: "items ?S = cart pos" by (simp add: sale mkSale_def)
  have sub: "subtotal ?S = foldl (\<lambda>acc item. to_double (acc + item_total item)) 0 (cart pos)"
    by (simp add: sale mkSale_def cartSubtotal_def js_add_def)
  have tx: "tax ?S = to_double (subtotal ?S * to_double (5 / 100))"
    by (simp add: sale mkSale_def cartTax_def js_mul_def literal_0_05_def)
  have tot: "total ?S = to_double (subtotal ?S + tax ?S)"
    by (simp add: sale mkSale_def cartTotal_def js_add_def)
  have lines: "subtotal ?S
      = foldl (\<lambda>acc item. to_double (acc + to_double (of_int (quantity item) * price item)))
          0 (cart pos)"
    if "list_all line_ok (cart pos)"
    using line_ok_subtotal [OF that] by (simp add: sub)
  have txerr: "\<bar>tax ?S - subtotal ?S * 5 / 100\<bar> \<le> \<bar>subtotal ?S * 5 / 100\<bar> / 2 ^ 52"
    if "2 powi (- 1022) \<le> \<bar>subtotal ?S * to_double (5 / 100)\<bar>"
  proof -
    from that have "2 powi (- 1022) \<le> \<bar>subtotal ?S * literal_0_05\<bar>"
      by (simp only: literal_0_05_def)
    from tax_error [OF this] show ?thesis
      by (simp only: tx js_mul_def literal_0_05_def)
  qed
  have toterr: "\<bar>total ?S - (subtotal ?S + tax ?S)\<bar> \<le> \<bar>subtotal ?S + tax ?S\<bar> / 2 ^ 53"
    if "2 powi (- 1022) \<le> \<bar>subtotal ?S + tax ?S\<bar>"
    using to_double_error [OF that] by (simp only: tot [symmetric])
  show ?thesis
    using len it sub tx tot lines txerr toterr by blast
qed


lemma to_double_examples:
  "to_double (0 + to_double (of_int 3 * 10)) = 30"
  "to_double (30 * to_double (5 / 100)) = 3 / 2"
  "to_double (30 + 3 / 2) = 63 / 2"
  by code_simp+

text \<open>The scenario: one line, quantity 3 at unit price 10, gives 30, 1.5 and 31.5.\<close>

theorem handleFinish_totals_witness:
  "cart exPos \<noteq> [] \<and>
   list_all line_ok (cart exPos) \<and>
   map (\<lambda>i. (productId i, quantity i, price i)) (cart exPos) = [(''P'', 3, 10)] \<and>
   subtotal (hd (sales (snd (handleFinish exEnv exPos (exState (Some exSeller)))))) = 30 \<and>
   tax (hd (sales (snd (handleFinish exEnv exPos (exState (Some exSeller)))))) = 3 / 2 \<and>
   total (hd (sales (snd (handleFinish exEnv exPos (exState (Some exSeller)))))) = 63 / 2 \<and>
   2 powi (- 1022) \<le> \<bar>30 * to_double (5 / 100)\<bar> \<and>
   2 powi (- 1022) \<le> \<bar>30 + 3 / 2 :: rat\<bar>"
proof -
  let ?S = "hd (sales (snd (handleFinish exEnv exPos (exState (Some exSeller)))))"
  have c: "cart exPos = [\<lparr>productId = ''P'', item_name = ''Widget'', quantity = 3, price = 10,
                          item_total = 30, returnedQuantity = None\<rparr>]"
    by (simp add: exPos_def exCart_value)
  have ne: "cart exPos \<noteq> []" by (simp add: c)
  have ok: "list_all line_ok (cart exPos)"
    by (simp add: c line_ok_def pos_arith_examples)
  note t = handleFinish_totals [OF ne, of exEnv "exState (Some exSeller)"]
  from t ok have
    "subtotal ?S
       = foldl (\<lambda>acc item. to_double (acc + to_double (of_int (quantity item) * price item)))
           0 (cart exPos)"
    by blast
  also have "\<dots> = to_double (0 + to_double (of_int 3 * 10))"
    by (simp add: c)
  also have "\<dots> = 30" by (rule to_double_examples)
  finally have s30: "subtotal ?S = 30" .
  from t have "tax ?S = to_double (subtotal ?S * to_double (5 / 100))" by blast
  then have "tax ?S = to_double (30 * to_double (5 / 100))" by (simp only: s30)
  then have tx: "tax ?S = 3 / 2" by (simp only: to_double_examples)
  from t have "total ?S = to_double (subtotal ?S + tax ?S)" by blast
  then have "total ?S = to_double (30 + 3 / 2)" by (simp only: s30 tx)
  then have tot: "total ?S = 63 / 2" by (simp only: to_double_examples)
  have lines: "map (\<lambda>i. (productId i, quantity i, price i)) (cart exPos) = [(''P'', 3, 10)]"
    by (simp add: c)
  have small: "(2::rat) powi (- 1022) \<le> 1"
    using power_int_increasing [of "- 1022" 0 "2::rat"] by simp
  have "(1::rat) \<le> \<bar>30 * to_double (5 / 100)\<bar>" by code_simp
  with small have n1: "2 powi (- 1022) \<le> \<bar>30 * to_double (5 / 100)\<bar>" by linarith
  have "(1::rat) \<le> \<bar>30 + 3 / 2\<bar>" by simp
  with small have n2: "2 powi (- 1022) \<le> \<bar>30 + 3 / 2 :: rat\<bar>" by linarith
  show ?thesis using ne ok lines s30 tx tot n1 n2 by blast
qed

section \<open>The cart stays within stock\<close>

text \<open>
  The quantity check that \<open>completeSale\<close> does not make is made while the cart is built:
  each of the three cart operations keeps the cart within stock.
\<close>

lemma find_productId_unique:
  assumes "distinct (map productId xs)"
    and "find (\<lambda>item. productId item = pid) xs = Some ex"
    and "item \<in> set xs" and "productId item = pid"
  shows "item = ex"
proof -
  from assms(2) have "ex \<in> set xs" "productId ex = pid"
    by (auto simp add: find_Some_iff)
  with assms(1,3,4) show ?thesis
    by (metis distinct_map inj_on_def)
qed

lemma fits_addToCart:
  assumes "cart_fits prods xs" and "product \<in> set prods" and "0 < stock product"
  shows "cart_fits prods (addToCart product xs)"
proof (cases "find (\<lambda>item. productId item = prod_id product) xs")
  case None
  then have "prod_id product \<notin> productId ` set xs"
    by (auto simp add: find_None_iff)
  with assms None show ?thesis
    by (auto simp add: cart_fits_def addToCart_def list_all_iff list_ex_iff)
next
  case (Some ex)
  show ?thesis
  proof (cases "quantity ex \<ge> stock product")
    case True
    with Some assms(1) show ?thesis by (simp add: addToCart_def)
  next
    case False
    have same: "item = ex" if "item \<in> set xs" "productId item = prod_id product" for item
      using find_productId_unique [OF _ Some that] assms(1) by (simp add: cart_fits_def)
    have ids: "map productId (map (\<lambda>item. if productId item = prod_id product
                           then item\<lparr>quantity := quantity item + 1,
                                    item_total := js_mul (of_int (quantity item + 1)) (price item)\<rparr>
                           else item) xs) = map productId xs"
      by (induction xs) simp_all
    show ?thesis
      using Some False assms same
      by (auto simp add: cart_fits_def addToCart_def ids list_all_iff list_ex_iff
          simp del: map_map)
  qed
qed


lemma map_filter_ids:
  assumes "\<And>x y. f x = Some y \<Longrightarrow> productId y = productId x"
  shows "\<exists>ys. map productId (List.map_filter f xs) = map productId ys \<and> set ys \<subseteq> set xs
              \<and> (distinct (map productId xs) \<longrightarrow> distinct (map productId ys))"
proof (induction xs)
  case Nil
  show ?case by simp
next
  case (Cons x xs)
  then obtain ys where ys: "map productId (List.map_filter f xs) = map productId ys"
    "set ys \<subseteq> set xs" "distinct (map productId xs) \<longrightarrow> distinct (map productId ys)"
    by blast
  show ?case
  proof (cases "f x")
    case None
    with ys show ?thesis by (intro exI [of _ ys]) auto
  next
    case (Some y)
    with ys assms [OF Some] show ?thesis by (intro exI [of _ "x # ys"]) auto
  qed
qed

lemma fits_updateQuantity:
  assumes "cart_fits prods xs"
  shows "cart_fits prods (updateQuantity prods pid delta xs)"
proof -
  let ?f = "\<lambda>item.
        if productId item = pid then
          let newQty = max 0 (quantity item + delta);
              prd = find (\<lambda>p. prod_id p = pid) prods
          in if newQty > (case prd of None \<Rightarrow> 0 | Some p \<Rightarrow> stock p) then Some item
             else if newQty = 0 then None
             else Some (item\<lparr>quantity := newQty, item_total := js_mul (of_int newQty) (price item)\<rparr>)
        else Some item"
  have keep: "productId y = productId x" if "?f x = Some y" for x y
    using that by (auto simp add: Let_def split: if_splits)
  from map_filter_ids [of ?f xs, OF keep] assms
  have d: "distinct (map productId (updateQuantity prods pid delta xs))"
    by (auto simp add: updateQuantity_def cart_fits_def)
  have ok: "list_ex (\<lambda>p. prod_id p = productId y \<and> quantity y \<le> stock p) prods"
    if "?f x = Some y"
      and "list_ex (\<lambda>p. prod_id p = productId x \<and> quantity x \<le> stock p) prods" for x y
  proof (cases "y = x")
    case True
    with that show ?thesis by simp
  next
    case False
    with that(1) have pid: "productId x = pid" and y: "productId y = pid"
      and q: "quantity y = max 0 (quantity x + delta)"
      and le: "\<not> max 0 (quantity x + delta)
                 > (case find (\<lambda>p. prod_id p = pid) prods of None \<Rightarrow> 0 | Some p \<Rightarrow> stock p)"
      and nz: "max 0 (quantity x + delta) \<noteq> 0"
      by (auto simp add: Let_def split: if_splits)
    from le nz obtain p where p: "find (\<lambda>p. prod_id p = pid) prods = Some p"
      by (cases "find (\<lambda>p. prod_id p = pid) prods") auto
    then have "p \<in> set prods" "prod_id p = pid"
      by (auto simp add: find_Some_iff)
    with le p q y show ?thesis by (auto simp add: list_ex_iff)
  qed
  have all: "list_all (\<lambda>item. list_ex (\<lambda>p. prod_id p = productId item \<and> quantity item \<le> stock p) prods)
               (List.map_filter ?f zs)"
    if "list_all (\<lambda>item. list_ex (\<lambda>p. prod_id p = productId item \<and> quantity item \<le> stock p) prods) zs"
    for zs
    using that
  proof (induction zs)
    case Nil
    show ?case by simp
  next
    case (Cons z zs)
    show ?case
    proof (cases "?f z")
      case None
      with Cons show ?thesis by simp
    next
      case (Some y)
      with Cons ok [of z y] show ?thesis by simp
    qed
  qed
  from all [of xs] assms d show ?thesis
    by (simp add: cart_fits_def updateQuantity_def)
qed

lemma updateFirst_ids:
  "(\<And>x. productId (f x) = productId x) \<Longrightarrow> map productId (updateFirst P f xs) = map productId xs"
  by (induction xs) simp_all

lemma updateFirst_all:
  "list_all Q xs \<Longrightarrow> (\<And>x. Q x \<Longrightarrow> Q (f x)) \<Longrightarrow> list_all Q (updateFirst P f xs)"
  by (induction xs) simp_all

lemma fits_addScannedOne:
  assumes "cart_fits prods xs" and "\<And>p. matchedProduct item = Some p \<Longrightarrow> p \<in> set prods"
  shows "cart_fits prods (addScannedOne xs item)"
proof (cases "matchedProduct item")
  case None
  with assms(1) show ?thesis by (simp add: addScannedOne_def)
next
  case (Some prd)
  with assms(2) have mem: "prd \<in> set prods" by simp
  show ?thesis
  proof (cases "find (\<lambda>c. productId c = prod_id prd) xs")
    case None
    then have "prod_id prd \<notin> productId ` set xs"
      by (auto simp add: find_None_iff)
    with assms(1) Some None mem show ?thesis
      by (auto simp add: cart_fits_def addScannedOne_def Let_def list_all_iff list_ex_iff)
  next
    case found: (Some ex)
    let ?g = "\<lambda>ex. let q = min (quantity ex + min (scan_quantity item) (stock prd)) (stock prd)
                   in ex\<lparr>quantity := q, item_total := js_mul (of_int q) (price ex)\<rparr>"
    have one: "addScannedOne xs item = updateFirst (\<lambda>c. productId c = prod_id prd) ?g xs"
      using Some found by (simp add: addScannedOne_def Let_def)
    have ids: "map productId (updateFirst (\<lambda>c. productId c = prod_id prd) ?g xs)
                 = map productId xs"
      by (rule updateFirst_ids) (simp add: Let_def)
    have all: "list_all (\<lambda>it. list_ex (\<lambda>p. prod_id p = productId it \<and> quantity it \<le> stock p) prods)
                 (updateFirst (\<lambda>c. productId c = prod_id prd) ?g xs)"
      unfolding list_all_iff
    proof
      fix y assume y: "y \<in> set (updateFirst (\<lambda>c. productId c = prod_id prd) ?g xs)"
      have "\<And>zs. y \<in> set (updateFirst (\<lambda>c. productId c = prod_id prd) ?g zs)
              \<Longrightarrow> y \<in> set zs \<or> (\<exists>z \<in> set zs. productId z = prod_id prd \<and> y = ?g z)"
      proof -
        fix zs
        show "y \<in> set (updateFirst (\<lambda>c. productId c = prod_id prd) ?g zs)
              \<Longrightarrow> y \<in> set zs \<or> (\<exists>z \<in> set zs. productId z = prod_id prd \<and> y = ?g z)"
          by (induction zs) (auto split: if_splits)
      qed
      from this [OF y] show "list_ex (\<lambda>p. prod_id p = productId y \<and> quantity y \<le> stock p) prods"
      proof
        assume "y \<in> set xs"
        with assms(1) show ?thesis by (simp add: cart_fits_def list_all_iff)
      next
        assume "\<exists>z \<in> set xs. productId z = prod_id prd \<and> y = ?g z"
        then obtain z where "productId z = prod_id prd" "y = ?g z" by blast
        with mem show ?thesis by (auto simp add: list_ex_iff Let_def)
      qed
    qed
    from assms(1) ids all show ?thesis by (simp add: one cart_fits_def)
  qed
qed

lemma fits_addScannedToCart:
  assumes "cart_fits prods xs"
    and "\<And>i p. i \<in> set scanned \<Longrightarrow> matchedProduct i = Some p \<Longrightarrow> p \<in> set prods"
  shows "cart_fits prods (addScannedToCart scanned xs)"
proof -
  have "cart_fits prods (foldl addScannedOne ys its)"
    if "cart_fits prods ys" "set its \<subseteq> set scanned" for ys its
    using that
  proof (induction its arbitrary: ys)
    case Nil
    then show ?case by simp
  next
    case (Cons i its)
    from Cons.prems have "cart_fits prods (addScannedOne ys i)"
      using assms(2) by (intro fits_addScannedOne) auto
    with Cons show ?case by simp
  qed
  then show ?thesis using assms(1) by (simp add: addScannedToCart_def)
qed

text \<open>
  A sale that the point of sale hands over for a cart within stock leaves no stock below 0,
  when the product ids are distinct and no stock was below 0.
\<close>

lemma handleFinish_within_stock:
  assumes fits: "cart_fits (products st) (cart pos)"
    and ids: "distinct (map prod_id (products st))"
    and nonneg: "list_all (\<lambda>p. 0 \<le> stock p) (products st)"
  shows "list_all (\<lambda>p. 0 \<le> stock p) (products (snd (handleFinish e pos st)))"
proof (cases "cart pos = []")
  case True
  with nonneg show ?thesis by (simp add: handleFinish_def)
next
  case False
  have "0 \<le> stock (sellOne e (mkSale e pos) p)" if p: "p \<in> set (products st)" for p
  proof (cases "find (\<lambda>item. productId item = prod_id p) (cart pos)")
    case None
    with nonneg p show ?thesis by (simp add: sellOne_def mkSale_def list_all_iff)
  next
    case (Some it)
    then have "it \<in> set (cart pos)" "productId it = prod_id p"
      by (auto simp add: find_Some_iff)
    with fits obtain q where q: "q \<in> set (products st)" "prod_id q = prod_id p"
      "quantity it \<le> stock q"
      by (auto simp add: cart_fits_def list_all_iff list_ex_iff)
    with ids p have "q = p" by (metis distinct_map inj_on_def)
    with q Some show ?thesis by (simp add: sellOne_def mkSale_def Let_def)
  qed
  with False show ?thesis
    by (simp add: handleFinish_def completeSale_def Let_def list_all_iff)
qed

section \<open>The product query\<close>

subsection \<open>Comparing two products by one key\<close>

text \<open>What the comparator tests for a key is the comparison of the specification.\<close>

lemma js_less_field: "js_less lc (field k a) (field k b) = spec_less lc k a b"
  by (cases k) simp_all

lemma js_less_trans:
  "js_less lc (field k a) (field k b) \<Longrightarrow> js_less lc (field k b) (field k c)
   \<Longrightarrow> js_less lc (field k a) (field k c)"
  by (cases k) auto

lemma js_less_asym: "js_less lc (field k a) (field k b) \<Longrightarrow> \<not> js_less lc (field k b) (field k a)"
  by (cases k) auto

lemma js_less_tie_left:
  "\<not> js_less lc (field k a) (field k b) \<Longrightarrow> \<not> js_less lc (field k b) (field k a)
   \<Longrightarrow> js_less lc (field k a) (field k c) = js_less lc (field k b) (field k c)"
  by (cases k) auto

lemma js_less_tie_right:
  "\<not> js_less lc (field k a) (field k b) \<Longrightarrow> \<not> js_less lc (field k b) (field k a)
   \<Longrightarrow> js_less lc (field k c) (field k a) = js_less lc (field k c) (field k b)"
  by (cases k) auto

subsection \<open>The comparator is consistent\<close>

lemma comparator_flip: "comparator lc cfgs b a = - comparator lc cfgs a b"
proof (induction cfgs)
  case Nil
  show ?case by simp
next
  case (Cons c cfgs)
  show ?case
  proof (cases "direction c")
    case None
    with Cons show ?thesis by simp
  next
    case (Some d)
    with Cons show ?thesis
      using js_less_asym [of _ "key c" a b] by auto
  qed
qed

lemma comparator_tie_trans:
  "comparator lc cfgs a x = 0 \<Longrightarrow> comparator lc cfgs a y = 0 \<Longrightarrow> comparator lc cfgs x y = 0"
proof (induction cfgs)
  case Nil
  show ?case by simp
next
  case (Cons c cfgs)
  show ?case
  proof (cases "direction c")
    case None
    with Cons show ?thesis by simp
  next
    case (Some d)
    from Cons.prems Some have
      ax: "\<not> js_less lc (field (key c) a) (field (key c) x)"
          "\<not> js_less lc (field (key c) x) (field (key c) a)" "comparator lc cfgs a x = 0"
      and ay: "\<not> js_less lc (field (key c) a) (field (key c) y)"
          "\<not> js_less lc (field (key c) y) (field (key c) a)" "comparator lc cfgs a y = 0"
      by (auto split: if_splits)
    have "\<not> js_less lc (field (key c) x) (field (key c) y)"
      using ax ay js_less_tie_left [of _ "key c" a x y] by simp
    moreover have "\<not> js_less lc (field (key c) y) (field (key c) x)"
      using ax ay js_less_tie_right [of _ "key c" a x y] by simp
    ultimately show ?thesis
      using Some Cons.IH [OF ax(3) ay(3)] by simp
  qed
qed

lemma comparator_trans:
  "comparator lc cfgs a b \<le> 0 \<Longrightarrow> comparator lc cfgs b c \<le> 0 \<Longrightarrow> comparator lc cfgs a c \<le> 0"
proof (induction cfgs)
  case Nil
  show ?case by simp
next
  case (Cons cf cfgs)
  show ?case
  proof (cases "direction cf")
    case None
    with Cons show ?thesis by simp
  next
    case (Some d)
    let ?lt = "\<lambda>u v. js_less lc (field (key cf) u) (field (key cf) v)"
    consider (tt) "\<not> ?lt a b" "\<not> ?lt b a" "\<not> ?lt b c" "\<not> ?lt c b"
      | (tl) "\<not> ?lt a b" "\<not> ?lt b a" "?lt b c"
      | (tg) "\<not> ?lt a b" "\<not> ?lt b a" "?lt c b"
      | (lt) "?lt a b" "\<not> ?lt b c" "\<not> ?lt c b"
      | (gt) "?lt b a" "\<not> ?lt b c" "\<not> ?lt c b"
      | (ll) "?lt a b" "?lt b c"
      | (gg) "?lt b a" "?lt c b"
      | (lg) "?lt a b" "?lt c b"
      | (gl) "?lt b a" "?lt b c"
      by blast
    then show ?thesis
    proof cases
      case tt
      then have "\<not> ?lt a c" "\<not> ?lt c a"
        using js_less_tie_left [of _ "key cf" a b c] js_less_tie_right [of _ "key cf" a b c]
        by simp_all
      with tt Some Cons show ?thesis by simp
    next
      case tl
      then have "?lt a c" using js_less_tie_left [of _ "key cf" a b c] by simp
      with tl Some Cons.prems show ?thesis
        using js_less_asym [of _ "key cf" b c] by (auto split: if_splits)
    next
      case tg
      then have "?lt c a" using js_less_tie_right [of _ "key cf" a b c] by simp
      with tg Some Cons.prems show ?thesis
        using js_less_asym [of _ "key cf" c b] js_less_asym [of _ "key cf" c a]
        by (auto split: if_splits)
    next
      case lt
      then have "?lt a c" using js_less_tie_right [of _ "key cf" b c a] by simp
      with lt Some Cons.prems show ?thesis
        using js_less_asym [of _ "key cf" a b] by (auto split: if_splits)
    next
      case gt
      then have "?lt c a" using js_less_tie_left [of _ "key cf" b c a] by simp
      with gt Some Cons.prems show ?thesis
        using js_less_asym [of _ "key cf" b a] js_less_asym [of _ "key cf" c a]
        by (auto split: if_splits)
    next
      case ll
      then have "?lt a c" by (rule js_less_trans)
      with ll Some Cons.prems show ?thesis
        using js_less_asym [of _ "key cf" a b] by (auto split: if_splits)
    next
      case gg
      then have "?lt c a" using js_less_trans [of _ "key cf" c b a] by simp
      with gg Some Cons.prems show ?thesis
        using js_less_asym [of _ "key cf" b a] js_less_asym [of _ "key cf" c a]
          js_less_asym [of _ "key cf" c b]
        by (auto split: if_splits)
    next
      case lg
      with Some Cons.prems show ?thesis
        using js_less_asym [of _ "key cf" a b] js_less_asym [of _ "key cf" c b]
        by (auto split: if_splits)
    next
      case gl
      with Some Cons.prems show ?thesis
        using js_less_asym [of _ "key cf" b a] js_less_asym [of _ "key cf" b c]
        by (auto split: if_splits)
    qed
  qed
qed

lemma comparator_total: "comparator lc cfgs a b \<le> 0 \<or> comparator lc cfgs b a \<le> 0"
  using comparator_flip [of lc cfgs b a] by linarith

lemma comparator_inactive:
  "list_all (\<lambda>c. direction c = None) cfgs \<Longrightarrow> comparator lc cfgs a b = 0"
  by (induction cfgs) simp_all

subsection \<open>The sort: a permutation, sorted, stable\<close>

lemma mset_insertBy: "mset (insertBy cmp x ys) = add_mset x (mset ys)"
  by (induction ys) simp_all

lemma mset_array_sort: "mset (array_sort cmp xs) = mset xs"
  by (induction xs) (simp_all add: mset_insertBy)

lemma set_insertBy: "set (insertBy cmp x ys) = insert x (set ys)"
  by (induction ys) auto

lemma set_array_sort: "set (array_sort cmp xs) = set xs"
  by (induction xs) (simp_all add: set_insertBy)

lemma sorted_insertBy:
  assumes total: "\<And>a b. cmp a b \<le> 0 \<or> cmp b a \<le> (0::int)"
    and trans: "\<And>a b c. cmp a b \<le> 0 \<Longrightarrow> cmp b c \<le> 0 \<Longrightarrow> cmp a c \<le> 0"
    and "sorted_wrt (\<lambda>a b. cmp a b \<le> 0) ys"
  shows "sorted_wrt (\<lambda>a b. cmp a b \<le> 0) (insertBy cmp x ys)"
  using assms(3)
proof (induction ys)
  case Nil
  show ?case by simp
next
  case (Cons y ys)
  show ?case
  proof (cases "cmp x y \<le> 0")
    case True
    with Cons.prems show ?thesis by (auto intro: trans)
  next
    case False
    with total [of x y] have "cmp y x \<le> 0" by simp
    with False Cons show ?thesis by (auto simp add: set_insertBy)
  qed
qed

lemma sorted_array_sort:
  assumes "\<And>a b. cmp a b \<le> 0 \<or> cmp b a \<le> (0::int)"
    and "\<And>a b c. cmp a b \<le> 0 \<Longrightarrow> cmp b c \<le> 0 \<Longrightarrow> cmp a c \<le> 0"
  shows "sorted_wrt (\<lambda>a b. cmp a b \<le> 0) (array_sort cmp xs)"
proof (induction xs)
  case Nil
  show ?case by simp
next
  case (Cons x xs)
  then show ?case using sorted_insertBy [of cmp, OF assms] by simp
qed

lemma filter_insertBy_other: "\<not> P x \<Longrightarrow> filter P (insertBy cmp x ys) = filter P ys"
  by (induction ys) simp_all

lemma filter_insertBy_front:
  "P x \<Longrightarrow> \<forall>y \<in> set ys. P y \<longrightarrow> cmp x y \<le> 0
   \<Longrightarrow> filter P (insertBy cmp x ys) = x # filter P ys"
  by (induction ys) auto

text \<open>
  Stability: products that the comparator does not tell apart keep their order. \<open>P\<close> is
  any class of such products.
\<close>

lemma array_sort_stable:
  assumes "\<And>x y. P x \<Longrightarrow> P y \<Longrightarrow> cmp x y \<le> (0::int)"
  shows "filter P (array_sort cmp xs) = filter P xs"
proof (induction xs)
  case Nil
  show ?case by simp
next
  case (Cons x xs)
  show ?case
  proof (cases "P x")
    case False
    with Cons show ?thesis by (simp add: filter_insertBy_other)
  next
    case True
    then have "\<forall>y \<in> set (array_sort cmp xs). P y \<longrightarrow> cmp x y \<le> 0"
      using assms by blast
    with True Cons show ?thesis by (simp add: filter_insertBy_front)
  qed
qed

subsection \<open>Descending is ascending reversed when nothing ties\<close>

lemma insertBy_last: "\<forall>z \<in> set zs. cmp x z > 0 \<Longrightarrow> insertBy cmp x zs = zs @ [x]"
  by (induction zs) simp_all

lemma insertBy_snoc: "cmp x y \<le> 0 \<Longrightarrow> insertBy cmp x (zs @ [y]) = insertBy cmp x zs @ [y]"
  by (induction zs) simp_all

lemma insertBy_strict:
  assumes flip: "\<And>a b. cmp b a = - cmp a (b::'a)"
    and trans: "\<And>a b c. cmp a b < 0 \<Longrightarrow> cmp b c < 0 \<Longrightarrow> cmp a c < (0::int)"
    and "sorted_wrt (\<lambda>a b. cmp a b < 0) ys" and "\<forall>y \<in> set ys. cmp x y \<noteq> 0"
  shows "sorted_wrt (\<lambda>a b. cmp a b < 0) (insertBy cmp x ys)"
  using assms(3,4)
proof (induction ys)
  case Nil
  show ?case by simp
next
  case (Cons y ys)
  show ?case
  proof (cases "cmp x y \<le> 0")
    case True
    with Cons.prems have "cmp x y < 0" by simp
    with True Cons.prems show ?thesis by (auto intro: trans)
  next
    case False
    with flip [of x y] have "cmp y x < 0" by simp
    with False Cons show ?thesis by (auto simp add: set_insertBy)
  qed
qed

lemma insertBy_rev:
  assumes neg: "\<And>a b. cmpD a b = - cmpA a (b::'a)"
    and trans: "\<And>a b c. cmpA a b < 0 \<Longrightarrow> cmpA b c < 0 \<Longrightarrow> cmpA a c < (0::int)"
    and "sorted_wrt (\<lambda>a b. cmpA a b < 0) ys" and "\<forall>y \<in> set ys. cmpA x y \<noteq> 0"
  shows "insertBy cmpD x (rev ys) = rev (insertBy cmpA x ys)"
  using assms(3,4)
proof (induction ys)
  case Nil
  show ?case by simp
next
  case (Cons y ys)
  show ?case
  proof (cases "cmpA x y \<le> 0")
    case True
    with Cons.prems have xy: "cmpA x y < 0" by simp
    have "\<forall>z \<in> set (rev ys @ [y]). cmpD x z > 0"
    proof
      fix z assume "z \<in> set (rev ys @ [y])"
      then have "z = y \<or> cmpA y z < 0" using Cons.prems by auto
      then have "cmpA x z < 0" using xy trans by blast
      then show "cmpD x z > 0" by (simp add: neg)
    qed
    then have "insertBy cmpD x (rev ys @ [y]) = (rev ys @ [y]) @ [x]"
      by (rule insertBy_last)
    with True show ?thesis by simp
  next
    case False
    then have "cmpD x y \<le> 0" by (simp add: neg)
    then have "insertBy cmpD x (rev ys @ [y]) = insertBy cmpD x (rev ys) @ [y]"
      by (rule insertBy_snoc)
    with False Cons show ?thesis by simp
  qed
qed

lemma array_sort_rev:
  assumes neg: "\<And>a b. cmpD a b = - cmpA a (b::'a)"
    and flip: "\<And>a b. cmpA b a = - cmpA a b"
    and trans: "\<And>a b c. cmpA a b < 0 \<Longrightarrow> cmpA b c < 0 \<Longrightarrow> cmpA a c < (0::int)"
    and "sorted_wrt (\<lambda>a b. cmpA a b \<noteq> 0) xs"
  shows "array_sort cmpD xs = rev (array_sort cmpA xs)
         \<and> sorted_wrt (\<lambda>a b. cmpA a b < 0) (array_sort cmpA xs)"
  using assms(4)
proof (induction xs)
  case Nil
  show ?case by simp
next
  case (Cons x xs)
  then have ih: "array_sort cmpD xs = rev (array_sort cmpA xs)"
    and st: "sorted_wrt (\<lambda>a b. cmpA a b < 0) (array_sort cmpA xs)"
    and nt: "\<forall>y \<in> set (array_sort cmpA xs). cmpA x y \<noteq> 0"
    by (simp_all add: set_array_sort)
  have "insertBy cmpD x (rev (array_sort cmpA xs)) = rev (insertBy cmpA x (array_sort cmpA xs))"
    using neg trans st nt by (rule insertBy_rev)
  moreover have "sorted_wrt (\<lambda>a b. cmpA a b < 0) (insertBy cmpA x (array_sort cmpA xs))"
    using flip trans st nt by (rule insertBy_strict)
  ultimately show ?case using ih by simp
qed

lemma comparator_single:
  "comparator lc [\<lparr>key = k, direction = Some d\<rparr>] a b =
     (if js_less lc (field k a) (field k b) then (if d = Asc then - 1 else 1)
      else if js_less lc (field k b) (field k a) then (if d = Asc then 1 else - 1)
      else 0)"
  by simp

lemma comparator_desc:
  "comparator lc [\<lparr>key = k, direction = Some Desc\<rparr>] a b
     = - comparator lc [\<lparr>key = k, direction = Some Asc\<rparr>] a b"
  by simp

lemma comparator_asc_trans:
  assumes "comparator lc [\<lparr>key = k, direction = Some Asc\<rparr>] a b < 0"
    and "comparator lc [\<lparr>key = k, direction = Some Asc\<rparr>] b c < 0"
  shows "comparator lc [\<lparr>key = k, direction = Some Asc\<rparr>] a c < 0"
proof -
  from assms have "js_less lc (field k a) (field k b)" "js_less lc (field k b) (field k c)"
    by (auto split: if_splits)
  then have "js_less lc (field k a) (field k c)" by (rule js_less_trans)
  then show ?thesis by simp
qed

lemma no_ties_comparator:
  "no_ties lc k xs = sorted_wrt (\<lambda>a b. comparator lc [\<lparr>key = k, direction = Some Asc\<rparr>] a b \<noteq> 0) xs"
proof -
  have "spec_differ lc k
        = (\<lambda>a b. comparator lc [\<lparr>key = k, direction = Some Asc\<rparr>] a b \<noteq> 0)"
    by (intro ext) (simp add: spec_differ_def js_less_field)
  then show ?thesis by (simp add: no_ties_def)
qed

lemma sort_desc_rev:
  assumes "no_ties lc k xs"
  shows "array_sort (comparator lc [\<lparr>key = k, direction = Some Desc\<rparr>]) xs
         = rev (array_sort (comparator lc [\<lparr>key = k, direction = Some Asc\<rparr>]) xs)"
proof -
  from assms
  have nt: "sorted_wrt (\<lambda>a b. comparator lc [\<lparr>key = k, direction = Some Asc\<rparr>] a b \<noteq> 0) xs"
    by (simp only: no_ties_comparator)
  have "array_sort (comparator lc [\<lparr>key = k, direction = Some Desc\<rparr>]) xs
          = rev (array_sort (comparator lc [\<lparr>key = k, direction = Some Asc\<rparr>]) xs)
        \<and> sorted_wrt (\<lambda>a b. comparator lc [\<lparr>key = k, direction = Some Asc\<rparr>] a b < 0)
            (array_sort (comparator lc [\<lparr>key = k, direction = Some Asc\<rparr>]) xs)"
  proof (rule array_sort_rev)
    show "comparator lc [\<lparr>key = k, direction = Some Desc\<rparr>] a b
            = - comparator lc [\<lparr>key = k, direction = Some Asc\<rparr>] a b" for a b
      by (rule comparator_desc)
    show "comparator lc [\<lparr>key = k, direction = Some Asc\<rparr>] b a
            = - comparator lc [\<lparr>key = k, direction = Some Asc\<rparr>] a b" for a b
      by (rule comparator_flip)
    show "comparator lc [\<lparr>key = k, direction = Some Asc\<rparr>] a c < 0"
      if "comparator lc [\<lparr>key = k, direction = Some Asc\<rparr>] a b < 0"
        and "comparator lc [\<lparr>key = k, direction = Some Asc\<rparr>] b c < 0" for a b c
      using that by (rule comparator_asc_trans)
    show "sorted_wrt (\<lambda>a b. comparator lc [\<lparr>key = k, direction = Some Asc\<rparr>] a b \<noteq> 0) xs"
      by (rule nt)
  qed
  then show ?thesis by blast
qed

subsection \<open>The comparator is the order of the specification\<close>

lemma spec_deciding_Cons:
  "spec_deciding lc (c # cfgs) a b =
     (if direction c \<noteq> None \<and> spec_differ lc (key c) a b then Some c
      else spec_deciding lc cfgs a b)"
  by (simp add: spec_deciding_def)

lemma comparator_spec:
  "(comparator lc cfgs a b < 0) = spec_before lc cfgs a b"
  "(comparator lc cfgs a b = 0) = spec_tied lc cfgs a b"
proof (induction cfgs)
  case Nil
  {
    case 1
    show ?case by (simp add: spec_before_def spec_deciding_def)
  next
    case 2
    show ?case by (simp add: spec_tied_def spec_deciding_def)
  }
next
  case (Cons c cfgs)
  {
    case 1
    show ?case
    proof (cases "direction c")
      case None
      with Cons.IH(1) show ?thesis
        by (simp add: spec_before_def spec_deciding_Cons)
    next
      case (Some d)
      with Cons.IH(1) show ?thesis
        using js_less_asym [of lc "key c" a b] js_less_asym [of lc "key c" b a]
        by (cases d)
          (auto simp add: spec_before_def spec_deciding_Cons spec_differ_def
             js_less_field [symmetric])
    qed
  next
    case 2
    show ?case
    proof (cases "direction c")
      case None
      with Cons.IH(2) show ?thesis
        by (simp add: spec_tied_def spec_deciding_Cons)
    next
      case (Some d)
      with Cons.IH(2) show ?thesis
        by (auto simp add: spec_tied_def spec_deciding_Cons spec_differ_def
            js_less_field [symmetric])
    qed
  }
qed


subsection \<open>The query\<close>

lemma ex_lower:
  "ascii_lower ''Widget'' = ''widget''" "ascii_lower ''Gadget'' = ''gadget''"
  "ascii_lower ''anvil'' = ''anvil''" "ascii_lower [] = []"
  "ascii_lower ''W-1'' = ''w-1''" "ascii_lower ''G-1'' = ''g-1''" "ascii_lower ''A-1'' = ''a-1''"
  "ascii_lower ''cast iron'' = ''cast iron''"
  "ascii_lower ''General'' = ''general''" "ascii_lower ''Tools'' = ''tools''"
  by code_simp+

lemma exCatalog_unfiltered: "filter (matchesFilter ascii_lower [] ''All'') exCatalog = exCatalog"
  by (simp add: exCatalog_def matchesFilter_def ex_lower exProduct_def exGadget_def exAnvil_def)

lemma filteredProducts_unfold:
  "filteredProducts lc ps search cat cfgs =
     (if cfgs \<noteq> []
      then array_sort (comparator lc cfgs) (filter (matchesFilter lc search cat) ps)
      else filter (matchesFilter lc search cat) ps)"
  by (simp add: filteredProducts_def Let_def)

lemma comparator_spec_after: "(0 < comparator lc cfgs a b) = spec_before lc cfgs b a"
proof -
  have "comparator lc cfgs b a = - comparator lc cfgs a b" by (rule comparator_flip)
  then have "(0 < comparator lc cfgs a b) = (comparator lc cfgs b a < 0)" by linarith
  then show ?thesis by (simp only: comparator_spec(1))
qed

lemma sorted_spec:
  "sorted_wrt (\<lambda>x y. \<not> spec_before lc cfgs y x) (array_sort (comparator lc cfgs) xs)"
proof -
  have s: "sorted_wrt (\<lambda>x y. comparator lc cfgs x y \<le> 0) (array_sort (comparator lc cfgs) xs)"
    by (rule sorted_array_sort) (rule comparator_total, rule comparator_trans)
  have i: "\<not> spec_before lc cfgs y x" if "comparator lc cfgs x y \<le> 0" for x y
  proof -
    from that have "\<not> 0 < comparator lc cfgs x y" by simp
    then show ?thesis unfolding comparator_spec_after .
  qed
  show ?thesis
    using s i by (auto simp add: sorted_wrt_iff_nth_less)
qed

lemma stable_spec:
  "filter (spec_tied lc cfgs a) (array_sort (comparator lc cfgs) xs)
     = filter (spec_tied lc cfgs a) xs"
proof (rule array_sort_stable)
  show "comparator lc cfgs x y \<le> 0"
    if "spec_tied lc cfgs a x" and "spec_tied lc cfgs a y" for x y
  proof -
    from that have "comparator lc cfgs a x = 0" "comparator lc cfgs a y = 0"
      by (simp_all only: comparator_spec(2))
    then have "comparator lc cfgs x y = 0" by (rule comparator_tie_trans)
    then show ?thesis by simp
  qed
qed

text \<open>
  C7. The query is the filter followed by the sort, for every lower-casing function \<open>lc\<close>.
  \<^item> With no sort key, or with keys that are all switched off, the result is the filtered
    input in its order.
  \<^item> A click on a column header, with or without the shift key, cycles its key: from no
    key to ascending, from ascending to descending, from descending to no key. The
    descending result is the reverse of the ascending one when no two filtered products
    agree in the key.
  \<^item> The comparator is the lexicographic order of the specification over the active keys:
    it is negative exactly when the first active key in which the two products differ
    puts the first before the second, and zero exactly when no active key tells them
    apart.
  \<^item> For every list of keys the result is a permutation of the filtered input; it is
    sorted in that lexicographic order (no product comes after one that the order puts
    behind it); and it is stable: the products tied with a given product \<open>a\<close> on all
    active keys come in their input order.
\<close>

theorem filteredProducts_sort:
  "filteredProducts lc ps search cat [] = filter (matchesFilter lc search cat) ps \<and>
   (list_all (\<lambda>c. direction c = None) cfgs \<longrightarrow>
      filteredProducts lc ps search cat cfgs = filter (matchesFilter lc search cat) ps) \<and>
   handleSort k shift [] = [\<lparr>key = k, direction = Some Asc\<rparr>] \<and>
   handleSort k shift [\<lparr>key = k, direction = Some Asc\<rparr>] = [\<lparr>key = k, direction = Some Desc\<rparr>] \<and>
   handleSort k shift [\<lparr>key = k, direction = Some Desc\<rparr>] = [] \<and>
   (no_ties lc k (filter (matchesFilter lc search cat) ps) \<longrightarrow>
      filteredProducts lc ps search cat [\<lparr>key = k, direction = Some Desc\<rparr>]
        = rev (filteredProducts lc ps search cat [\<lparr>key = k, direction = Some Asc\<rparr>])) \<and>
   (comparator lc cfgs a b < 0) = spec_before lc cfgs a b \<and>
   (comparator lc cfgs a b = 0) = spec_tied lc cfgs a b \<and>
   (0 < comparator lc cfgs a b) = spec_before lc cfgs b a \<and>
   mset (filteredProducts lc ps search cat cfgs) = mset (filter (matchesFilter lc search cat) ps) \<and>
   sorted_wrt (\<lambda>x y. \<not> spec_before lc cfgs y x) (filteredProducts lc ps search cat cfgs) \<and>
   filter (spec_tied lc cfgs a) (filteredProducts lc ps search cat cfgs)
     = filter (spec_tied lc cfgs a) (filter (matchesFilter lc search cat) ps)"
proof -
  let ?in = "filter (matchesFilter lc search cat) ps"
  have none: "filteredProducts lc ps search cat [] = ?in"
    by (simp add: filteredProducts_unfold)
  have off: "list_all (\<lambda>c. direction c = None) cfgs \<longrightarrow>
               filteredProducts lc ps search cat cfgs = ?in"
  proof
    assume h: "list_all (\<lambda>c. direction c = None) cfgs"
    have "filter (\<lambda>b. True) (array_sort (comparator lc cfgs) ?in) = filter (\<lambda>b. True) ?in"
      by (rule array_sort_stable) (simp add: comparator_inactive [OF h])
    then show "filteredProducts lc ps search cat cfgs = ?in"
      by (simp add: filteredProducts_unfold)
  qed
  have first: "handleSort k shift [] = [\<lparr>key = k, direction = Some Asc\<rparr>]"
    by (simp add: handleSort_def Let_def)
  have click: "handleSort k shift [\<lparr>key = k, direction = Some Asc\<rparr>]
                 = [\<lparr>key = k, direction = Some Desc\<rparr>]"
    by (simp add: handleSort_def Let_def)
  have third: "handleSort k shift [\<lparr>key = k, direction = Some Desc\<rparr>] = []"
    by (simp add: handleSort_def Let_def splice1_def)
  have desc: "no_ties lc k ?in \<longrightarrow>
              filteredProducts lc ps search cat [\<lparr>key = k, direction = Some Desc\<rparr>]
                = rev (filteredProducts lc ps search cat [\<lparr>key = k, direction = Some Asc\<rparr>])"
  proof
    assume "no_ties lc k ?in"
    from sort_desc_rev [OF this]
    show "filteredProducts lc ps search cat [\<lparr>key = k, direction = Some Desc\<rparr>]
                = rev (filteredProducts lc ps search cat [\<lparr>key = k, direction = Some Asc\<rparr>])"
      by (simp add: filteredProducts_unfold)
  qed
  have before: "(comparator lc cfgs a b < 0) = spec_before lc cfgs a b"
    by (rule comparator_spec)
  have tied: "(comparator lc cfgs a b = 0) = spec_tied lc cfgs a b"
    by (rule comparator_spec)
  have after: "(0 < comparator lc cfgs a b) = spec_before lc cfgs b a"
    by (rule comparator_spec_after)
  have perm: "mset (filteredProducts lc ps search cat cfgs) = mset ?in"
    by (simp add: filteredProducts_unfold mset_array_sort)
  have sorted: "sorted_wrt (\<lambda>x y. \<not> spec_before lc cfgs y x)
                  (filteredProducts lc ps search cat cfgs)"
  proof (cases cfgs)
    case Nil
    then show ?thesis
      by (simp add: filteredProducts_unfold spec_before_def spec_deciding_def)
  next
    case (Cons c cs)
    then have "filteredProducts lc ps search cat cfgs = array_sort (comparator lc cfgs) ?in"
      by (simp add: filteredProducts_unfold)
    then show ?thesis by (simp only: sorted_spec)
  qed
  have stable: "filter (spec_tied lc cfgs a) (filteredProducts lc ps search cat cfgs)
                  = filter (spec_tied lc cfgs a) ?in"
  proof (cases cfgs)
    case Nil
    then show ?thesis by (simp add: filteredProducts_unfold)
  next
    case (Cons c cs)
    then have "filteredProducts lc ps search cat cfgs = array_sort (comparator lc cfgs) ?in"
      by (simp add: filteredProducts_unfold)
    then show ?thesis by (simp only: stable_spec)
  qed
  show ?thesis
    by (intro conjI none off first click third desc before tied after perm sorted stable)
qed


text \<open>
  The catalogue \<open>Widget, Gadget, anvil\<close> sorted by name: ascending it is \<open>anvil, Gadget,
  Widget\<close> (case is ignored), descending the reverse. Sorted by stock, \<open>Gadget\<close> and
  \<open>anvil\<close> (both 4) keep their input order. Sorted by category and then by name, \<open>Gadget\<close>
  comes before \<open>Widget\<close>: they tie on the category and the name decides.
\<close>

theorem filteredProducts_sort_witness:
  "no_ties ascii_lower K_name (filter (matchesFilter ascii_lower [] ''All'') exCatalog) \<and>
   map prod_name (filteredProducts ascii_lower exCatalog [] ''All''
       [\<lparr>key = K_name, direction = Some Asc\<rparr>])
     = [''anvil'', ''Gadget'', ''Widget''] \<and>
   map prod_name (filteredProducts ascii_lower exCatalog [] ''All''
       [\<lparr>key = K_name, direction = Some Desc\<rparr>])
     = [''Widget'', ''Gadget'', ''anvil''] \<and>
   map prod_name (filteredProducts ascii_lower exCatalog [] ''All''
       [\<lparr>key = K_stock, direction = Some Asc\<rparr>])
     = [''Gadget'', ''anvil'', ''Widget''] \<and>
   map prod_name (filter (spec_tied ascii_lower [\<lparr>key = K_stock, direction = Some Asc\<rparr>] exGadget)
      (filteredProducts ascii_lower exCatalog [] ''All''
         [\<lparr>key = K_stock, direction = Some Asc\<rparr>]))
     = [''Gadget'', ''anvil''] \<and>
   map prod_name (filteredProducts ascii_lower exCatalog [] ''All''
       [\<lparr>key = K_category, direction = Some Asc\<rparr>, \<lparr>key = K_name, direction = Some Asc\<rparr>])
     = [''Gadget'', ''Widget'', ''anvil''] \<and>
   spec_before ascii_lower
     [\<lparr>key = K_category, direction = Some Asc\<rparr>, \<lparr>key = K_name, direction = Some Asc\<rparr>]
     exGadget exProduct \<and>
   comparator ascii_lower
     [\<lparr>key = K_category, direction = Some Asc\<rparr>, \<lparr>key = K_name, direction = Some Asc\<rparr>]
     exGadget exProduct < 0"
proof -
  let ?two = "[\<lparr>key = K_category, direction = Some Asc\<rparr>, \<lparr>key = K_name, direction = Some Asc\<rparr>]"
  have nt: "no_ties ascii_lower K_name (filter (matchesFilter ascii_lower [] ''All'') exCatalog)"
    by (simp add: exCatalog_unfiltered)
      (simp add: no_ties_def spec_differ_def exCatalog_def ex_lower exProduct_def exGadget_def
         exAnvil_def)
  have asc: "map prod_name
      (filteredProducts ascii_lower exCatalog [] ''All'' [\<lparr>key = K_name, direction = Some Asc\<rparr>])
     = [''anvil'', ''Gadget'', ''Widget'']"
    by (simp add: filteredProducts_unfold exCatalog_unfiltered)
      (simp add: exCatalog_def ex_lower exProduct_def exGadget_def exAnvil_def)
  have st: "map prod_name
      (filteredProducts ascii_lower exCatalog [] ''All'' [\<lparr>key = K_stock, direction = Some Asc\<rparr>])
     = [''Gadget'', ''anvil'', ''Widget'']"
    by (simp add: filteredProducts_unfold exCatalog_unfiltered)
      (simp add: exCatalog_def exProduct_def exGadget_def exAnvil_def)
  have two: "map prod_name (filteredProducts ascii_lower exCatalog [] ''All'' ?two)
     = [''Gadget'', ''Widget'', ''anvil'']"
    by (simp add: filteredProducts_unfold exCatalog_unfiltered)
      (simp add: exCatalog_def ex_lower exProduct_def exGadget_def exAnvil_def)
  have sb: "spec_before ascii_lower ?two exGadget exProduct"
    by (simp add: spec_before_def spec_deciding_def spec_differ_def ex_lower
        exProduct_def exGadget_def)
  note t = filteredProducts_sort [where lc = ascii_lower and ps = exCatalog and search = "[]"
      and cat = "''All''" and k = K_name]
  from t [where cfgs = "[]"] nt have
    "filteredProducts ascii_lower exCatalog [] ''All'' [\<lparr>key = K_name, direction = Some Desc\<rparr>]
       = rev (filteredProducts ascii_lower exCatalog [] ''All''
                [\<lparr>key = K_name, direction = Some Asc\<rparr>])"
    by blast
  then have desc: "map prod_name
      (filteredProducts ascii_lower exCatalog [] ''All'' [\<lparr>key = K_name, direction = Some Desc\<rparr>])
     = [''Widget'', ''Gadget'', ''anvil'']"
    using asc by (simp add: rev_map [symmetric])
  from t [where cfgs = "[\<lparr>key = K_stock, direction = Some Asc\<rparr>]" and a = exGadget] have
    "filter (spec_tied ascii_lower [\<lparr>key = K_stock, direction = Some Asc\<rparr>] exGadget)
       (filteredProducts ascii_lower exCatalog [] ''All'' [\<lparr>key = K_stock, direction = Some Asc\<rparr>])
     = filter (spec_tied ascii_lower [\<lparr>key = K_stock, direction = Some Asc\<rparr>] exGadget)
         (filter (matchesFilter ascii_lower [] ''All'') exCatalog)"
    by blast
  then have ties: "map prod_name
      (filter (spec_tied ascii_lower [\<lparr>key = K_stock, direction = Some Asc\<rparr>] exGadget)
         (filteredProducts ascii_lower exCatalog [] ''All''
            [\<lparr>key = K_stock, direction = Some Asc\<rparr>]))
     = [''Gadget'', ''anvil'']"
    by (simp add: exCatalog_unfiltered)
      (simp add: exCatalog_def spec_tied_def spec_deciding_def spec_differ_def
        exProduct_def exGadget_def exAnvil_def)
  from t [where cfgs = ?two and a = exGadget and b = exProduct] sb
  have cmp: "comparator ascii_lower ?two exGadget exProduct < 0"
    by blast
  show ?thesis
    by (intro conjI nt asc desc st ties two sb cmp)
qed

end
